theory Spec2Isabelle
  imports Main
begin

section \<open>Data model: Bedrock messages as the scripts handle them\<close>

text \<open>
  The scripts exchange plain Python dictionaries with the model endpoint. A Python
  \<^verbatim>\<open>str\<close> is modelled as the list of its characters (code points up to 255), a
  dictionary with a fixed set of interesting keys as a record of optional fields
  (\<open>None\<close>: the key is absent), and arbitrary JSON payloads as the datatype \<open>json\<close>.
\<close>

datatype json =
    JNull
  | JBool bool
  | JInt int
  | JStr string
  | JList "json list"
  | JObj "(string \<times> json) list"

text \<open>\<^verbatim>\<open>{"image": {"format": ..., "source": {"bytes": ...}}}\<close>\<close>

record image_block =
  img_format :: string
  img_bytes :: string

text \<open>The blocks inside a tool result, as \<^verbatim>\<open>process_tool_request\<close> and \<^verbatim>\<open>run_example\<close> build them.\<close>

datatype result_block =
    JsonBlock json
  | ImageBlock image_block

text \<open>\<^verbatim>\<open>{"toolUseId": ..., "name": ..., "input": ...}\<close>; the id and the input are read with \<^verbatim>\<open>.get\<close>.\<close>

record tool_use =
  tu_toolUseId :: "string option"
  tu_name :: string
  tu_input :: "json option"

text \<open>\<^verbatim>\<open>{"toolUseId": ..., "content": [...]}\<close>\<close>

record tool_result =
  tr_toolUseId :: "string option"
  tr_content :: "result_block list"

text \<open>
  A content item is a dictionary; the code only ever asks which of the keys
  \<^verbatim>\<open>text\<close>, \<^verbatim>\<open>image\<close>, \<^verbatim>\<open>json\<close>, \<^verbatim>\<open>toolUse\<close>, \<^verbatim>\<open>toolResult\<close> it has. Every other key
  of the dictionary is kept in \<open>c_other\<close>.
\<close>

record content_item =
  c_text :: "string option"
  c_image :: "image_block option"
  c_json :: "json option"
  c_toolUse :: "tool_use option"
  c_toolResult :: "tool_result option"
  c_other :: "(string \<times> json) list"

definition empty_item :: content_item where
  "empty_item = \<lparr>c_text = None, c_image = None, c_json = None, c_toolUse = None,
     c_toolResult = None, c_other = []\<rparr>"

definition Text :: "string \<Rightarrow> content_item" where
  "Text s = empty_item\<lparr>c_text := Some s\<rparr>"

definition Image :: "image_block \<Rightarrow> content_item" where
  "Image i = empty_item\<lparr>c_image := Some i\<rparr>"

definition Json :: "json \<Rightarrow> content_item" where
  "Json j = empty_item\<lparr>c_json := Some j\<rparr>"

definition ToolUse :: "tool_use \<Rightarrow> content_item" where
  "ToolUse u = empty_item\<lparr>c_toolUse := Some u\<rparr>"

definition ToolResult :: "tool_result \<Rightarrow> content_item" where
  "ToolResult r = empty_item\<lparr>c_toolResult := Some r\<rparr>"

text \<open>
  A message always has a role; \<open>content = None\<close> is a message dictionary without the
  \<^verbatim>\<open>content\<close> key, which the code reads as \<^verbatim>\<open>msg.get('content', [])\<close>.
\<close>

record message =
  role :: string
  content :: "content_item list option"

definition get_content :: "message \<Rightarrow> content_item list" where
  "get_content m = (case content m of None \<Rightarrow> [] | Some cs \<Rightarrow> cs)"

section \<open>Python string helpers\<close>

text \<open>\<^verbatim>\<open>str.isspace\<close> on one character, for code points up to 255.\<close>

definition py_isspace :: "char \<Rightarrow> bool" where
  "py_isspace c = ((of_char c :: nat) \<in> {9, 10, 11, 12, 13, 28, 29, 30, 31, 32, 133, 160})"

text \<open>\<^verbatim>\<open>s.strip()\<close>: whitespace removed at both ends.\<close>

definition py_strip :: "string \<Rightarrow> string" where
  "py_strip s = rev (dropWhile py_isspace (rev (dropWhile py_isspace s)))"

section \<open>The empty-text filter\<close>

text \<open>
  \<^verbatim>\<open>filter_empty_text_content\<close> (identical in \<^verbatim>\<open>08-type-scroll-tools.py\<close> and
  \<^verbatim>\<open>11-mcp-client.py\<close>). A message with a role is a non-empty dictionary, so
  \<^verbatim>\<open>not message\<close> is false and only the test for the \<^verbatim>\<open>content\<close> key remains.
\<close>

definition keep_item :: "content_item \<Rightarrow> bool" where
  "keep_item c = (case c_text c of None \<Rightarrow> True | Some t \<Rightarrow> py_strip t \<noteq> [])"

fun filter_loop :: "content_item list \<Rightarrow> content_item list \<Rightarrow> content_item list" where
  "filter_loop [] filtered_content = filtered_content"
| "filter_loop (content_item # rest) filtered_content =
     (if keep_item content_item
      then filter_loop rest (filtered_content @ [content_item])
      else filter_loop rest filtered_content)"

definition filter_empty_text_content :: "message \<Rightarrow> message" where
  "filter_empty_text_content m =
     (case content m of
        None \<Rightarrow> m
      | Some cs \<Rightarrow> m\<lparr>content := Some (filter_loop cs [])\<rparr>)"

text \<open>The filter as the specification words it: exactly the items \<open>Text("")\<close> go.\<close>

definition spec_filter_empty_text :: "message \<Rightarrow> message" where
  "spec_filter_empty_text m =
     (case content m of
        None \<Rightarrow> m
      | Some cs \<Rightarrow> m\<lparr>content := Some (filter (\<lambda>c. c_text c \<noteq> Some []) cs)\<rparr>)"

definition blank :: "string \<Rightarrow> bool" where
  "blank t = (\<forall>ch \<in> set t. py_isspace ch)"

section \<open>Media stripping\<close>

text \<open>\<^verbatim>\<open>remove_media_except_last_turn\<close> of \<^verbatim>\<open>11-mcp-client.py\<close>.\<close>

definition placeholder :: content_item where
  "placeholder = Text ''An image or document was removed for brevity.''"

text \<open>The inner loop over the content items of one message.\<close>

fun strip_loop :: "content_item list \<Rightarrow> content_item list \<Rightarrow> bool \<Rightarrow> content_item list \<times> bool" where
  "strip_loop [] new_content removed_media = (new_content, removed_media)"
| "strip_loop (content_item # rest) new_content removed_media =
     (if c_text content_item \<noteq> None
        then strip_loop rest (new_content @ [content_item]) removed_media
      else if c_image content_item \<noteq> None \<or> c_json content_item \<noteq> None
        then strip_loop rest new_content True
      else strip_loop rest (new_content @ [content_item]) removed_media)"

text \<open>The body of the outer loop for a message that is not skipped.\<close>

definition strip_message :: "message \<Rightarrow> message" where
  "strip_message m =
     (case content m of
        None \<Rightarrow> m
      | Some cs \<Rightarrow>
          (case strip_loop cs [] False of
             (new_content, removed_media) \<Rightarrow>
               m\<lparr>content := Some (if removed_media \<and> new_content = []
                                   then new_content @ [placeholder]
                                   else new_content)\<rparr>))"

text \<open>
  The backwards search for the last user message: \<open>scan_last_user ms k\<close> looks at the
  indices \<open>k - 1, ..., 0\<close>. (The second-to-last user index the source also records is
  never read afterwards.)
\<close>

fun scan_last_user :: "message list \<Rightarrow> nat \<Rightarrow> nat option" where
  "scan_last_user ms 0 = None"
| "scan_last_user ms (Suc i) =
     (if role (ms ! i) = ''user'' then Some i else scan_last_user ms i)"

definition last_user_index :: "message list \<Rightarrow> nat option" where
  "last_user_index ms = scan_last_user ms (length ms)"

definition skip_last_turn :: "message list \<Rightarrow> nat \<Rightarrow> bool" where
  "skip_last_turn ms i =
     ((case last_user_index ms of None \<Rightarrow> False | Some l \<Rightarrow> l \<le> i) \<or> i = length ms - 1)"

definition remove_media_except_last_turn :: "message list \<Rightarrow> message list" where
  "remove_media_except_last_turn messages =
     (if length messages < 2 then messages
      else map (\<lambda>i. if skip_last_turn messages i then messages ! i
                     else strip_message (messages ! i))
             [0 ..< length messages])"

section \<open>Summarization\<close>

text \<open>\<^verbatim>\<open>summarize_conversation\<close> of \<^verbatim>\<open>11-mcp-client.py\<close> and the constants it reads.\<close>

definition KEEP_LAST_TURNS :: nat where
  "KEEP_LAST_TURNS = 2"

definition SUMMARY_MODEL_ID :: string where
  "SUMMARY_MODEL_ID = ''us.amazon.nova-micro-v1:0''"

text \<open>
  The model endpoint is outside the repository. A call \<^verbatim>\<open>converse(modelId, messages)\<close>
  either raises (\<open>Inl\<close> of the exception text) or returns a response, of which the code
  reads \<^verbatim>\<open>output.message\<close> only (\<open>None\<close>: absent).
\<close>

type_synonym response = "message option"
type_synonym bedrock_client = "string \<Rightarrow> message list \<Rightarrow> string + response"

text \<open>
  The loop that collects the last turns, running \<open>i\<close> from the end of the list down to
  0 with its \<^verbatim>\<open>break\<close>: \<open>collect_last pm k ...\<close> still has the indices \<open>k - 1, ..., 0\<close>
  to visit.
\<close>

definition turn_boundary :: "message list \<Rightarrow> nat \<Rightarrow> bool" where
  "turn_boundary pm i =
     (role (pm ! i) = ''user'' \<and> i > 0 \<and> role (pm ! (i - 1)) = ''assistant'')"

fun collect_last ::
  "message list \<Rightarrow> nat \<Rightarrow> message list \<Rightarrow> nat \<Rightarrow> nat \<Rightarrow> message list \<times> nat \<times> nat" where
  "collect_last pm 0 last_messages message_count turn_count =
     (last_messages, message_count, turn_count)"
| "collect_last pm (Suc i) last_messages message_count turn_count =
     (let last_messages' = pm ! i # last_messages;
          message_count' = message_count + 1;
          turn_count' = (if turn_boundary pm i then turn_count + 1 else turn_count)
      in if turn_count' \<ge> KEEP_LAST_TURNS
         then (last_messages', message_count', turn_count')
         else collect_last pm i last_messages' message_count' turn_count')"

definition last_messages_of :: "message list \<Rightarrow> message list" where
  "last_messages_of pm = fst (collect_last pm (length pm) [] 0 0)"

definition message_count_of :: "message list \<Rightarrow> nat" where
  "message_count_of pm = fst (snd (collect_last pm (length pm) [] 0 0))"

text \<open>\<^verbatim>\<open>processed_messages[1:len(processed_messages) - message_count]\<close>\<close>

definition to_summarize_of :: "message list \<Rightarrow> message list" where
  "to_summarize_of pm = drop 1 (take (length pm - message_count_of pm) pm)"

definition has_toolUse :: "content_item \<Rightarrow> bool" where
  "has_toolUse c = (c_toolUse c \<noteq> None)"

definition has_toolResult :: "content_item \<Rightarrow> bool" where
  "has_toolResult c = (c_toolResult c \<noteq> None)"

definition tool_use_content :: "message list \<Rightarrow> content_item list" where
  "tool_use_content to_summarize =
     (if to_summarize \<noteq> [] \<and> role (last to_summarize) = ''assistant''
      then filter has_toolUse (get_content (last to_summarize))
      else [])"

text \<open>The prompt: \<^verbatim>\<open>str.upper\<close> on the role (ASCII letters) and the flattened content.\<close>

definition py_upper_char :: "char \<Rightarrow> char" where
  "py_upper_char c =
     (if 97 \<le> (of_char c :: nat) \<and> (of_char c :: nat) \<le> 122
      then (case c of Char b0 b1 b2 b3 b4 b5 b6 b7 \<Rightarrow> Char b0 b1 b2 b3 b4 False b6 b7)
      else c)"

definition py_upper :: "string \<Rightarrow> string" where
  "py_upper s = map py_upper_char s"

definition newline :: string where
  "newline = [CHR 0x0A]"

definition prompt_header :: string where
  "prompt_header =
     ''Please summarize the following conversation while preserving key information, decisions, and context.''
     @ newline @
     ''Focus on the steps we went through and what we've accomplished so far. Include any important findings or decisions made.''
     @ newline @
     ''Provide a concise but comprehensive summary that will help continue the conversation effectively:''
     @ newline @ newline"

definition describe_item :: "content_item \<Rightarrow> string" where
  "describe_item c =
     (case c_text c of
        Some t \<Rightarrow> t @ '' ''
      | None \<Rightarrow>
          if c_json c \<noteq> None then ''[JSON data] ''
          else if c_image c \<noteq> None then ''[IMAGE] ''
          else (case c_toolUse c of
                  Some u \<Rightarrow> ''[TOOL USE: '' @ tu_name u @ ''] ''
                | None \<Rightarrow> if c_toolResult c \<noteq> None then ''[TOOL RESULT] '' else []))"

definition content_text_of :: "message \<Rightarrow> string" where
  "content_text_of msg = concat (map describe_item (get_content msg))"

fun prompt_loop :: "message list \<Rightarrow> string \<Rightarrow> string" where
  "prompt_loop [] summarization_prompt = summarization_prompt"
| "prompt_loop (msg # rest) summarization_prompt =
     (if py_strip (content_text_of msg) \<noteq> []
      then prompt_loop rest
             (summarization_prompt @ py_upper (role msg) @ '': '' @ content_text_of msg
                @ newline @ newline)
      else prompt_loop rest summarization_prompt)"

definition summarization_request :: "message list \<Rightarrow> message list" where
  "summarization_request pm =
     [\<lparr>role = ''user'',
       content = Some [Text (prompt_loop (to_summarize_of pm) prompt_header)]\<rparr>]"

definition summary_text_of :: "response \<Rightarrow> string" where
  "summary_text_of summary_response =
     concat (map (\<lambda>c. case c_text c of Some t \<Rightarrow> t | None \<Rightarrow> [])
                 (case summary_response of None \<Rightarrow> [] | Some m \<Rightarrow> get_content m))"

definition summary_message_of :: "message list \<Rightarrow> response \<Rightarrow> message" where
  "summary_message_of pm summary_response =
     \<lparr>role = ''assistant'',
      content = Some ([Text (''[CONVERSATION SUMMARY: '' @ summary_text_of summary_response @ '']'')]
                      @ tool_use_content (to_summarize_of pm))\<rparr>"

text \<open>\<^verbatim>\<open>result = [first_message, summary_message]; result.extend(last_messages)\<close>\<close>

definition assemble :: "message list \<Rightarrow> response \<Rightarrow> message list" where
  "assemble pm summary_response =
     [pm ! 0, summary_message_of pm summary_response] @ last_messages_of pm"

text \<open>The verification loop over the result.\<close>

fun count_loop :: "message list \<Rightarrow> nat \<Rightarrow> nat \<Rightarrow> nat \<times> nat" where
  "count_loop [] tool_use_count tool_result_count = (tool_use_count, tool_result_count)"
| "count_loop (msg # rest) tool_use_count tool_result_count =
     (if role msg = ''assistant''
        then count_loop rest (tool_use_count + length (filter has_toolUse (get_content msg)))
               tool_result_count
      else if role msg = ''user''
        then count_loop rest tool_use_count
               (tool_result_count + length (filter has_toolResult (get_content msg)))
      else count_loop rest tool_use_count tool_result_count)"

text \<open>
  The function. \<^verbatim>\<open>copy.deepcopy\<close> is the identity on values; what it means for the
  objects involved is the subject of the store model further down.
\<close>

definition summarize_conversation :: "bedrock_client \<Rightarrow> message list \<Rightarrow> message list" where
  "summarize_conversation bedrock_client messages =
     (if length messages \<le> KEEP_LAST_TURNS * 2 + 1 then messages
      else
        let processed_messages = messages in
        if to_summarize_of processed_messages = [] then processed_messages
        else
          (case bedrock_client SUMMARY_MODEL_ID (summarization_request processed_messages) of
             Inl e \<Rightarrow> processed_messages
           | Inr summary_response \<Rightarrow>
               (let result = assemble processed_messages summary_response in
                case count_loop result 0 0 of
                  (tool_use_count, tool_result_count) \<Rightarrow>
                    if tool_use_count \<noteq> tool_result_count then messages else result)))"

text \<open>The tool-pairing invariant of the specification, stated on its own.\<close>

definition tool_use_count :: "message list \<Rightarrow> nat" where
  "tool_use_count ms =
     sum_list (map (\<lambda>m. length (filter has_toolUse (get_content m)))
                   (filter (\<lambda>m. role m = ''assistant'') ms))"

definition tool_result_count :: "message list \<Rightarrow> nat" where
  "tool_result_count ms =
     sum_list (map (\<lambda>m. length (filter has_toolResult (get_content m)))
                   (filter (\<lambda>m. role m = ''user'') ms))"

definition tool_pairing :: "message list \<Rightarrow> bool" where
  "tool_pairing ms = (tool_use_count ms = tool_result_count ms)"

text \<open>
  The kept tail as the specification words it: the last \<open>K\<close> complete user/assistant
  pairs, that is the last \<open>2 * K\<close> turns.
\<close>

definition spec_last_turn_pairs :: "nat \<Rightarrow> message list \<Rightarrow> message list" where
  "spec_last_turn_pairs K ms = drop (length ms - 2 * K) ms"

text \<open>Example transcripts and clients used to instantiate the theorems below.\<close>

definition demo_transcript :: "message list" where
  "demo_transcript =
     [\<lparr>role = ''user'', content = Some [Text ''go'']\<rparr>,
      \<lparr>role = ''assistant'',
       content = Some [ToolUse \<lparr>tu_toolUseId = Some ''t1'', tu_name = ''navigate'', tu_input = None\<rparr>]\<rparr>,
      \<lparr>role = ''user'',
       content = Some [ToolResult \<lparr>tr_toolUseId = Some ''t1'', tr_content = []\<rparr>, Text ''page A'']\<rparr>,
      \<lparr>role = ''assistant'',
       content = Some [ToolUse \<lparr>tu_toolUseId = Some ''t2'', tu_name = ''click'', tu_input = None\<rparr>]\<rparr>,
      \<lparr>role = ''user'',
       content = Some [ToolResult \<lparr>tr_toolUseId = Some ''t2'', tr_content = []\<rparr>, Text ''page B'']\<rparr>,
      \<lparr>role = ''assistant'',
       content = Some [ToolUse \<lparr>tu_toolUseId = Some ''t3'', tu_name = ''scroll'', tu_input = None\<rparr>]\<rparr>,
      \<lparr>role = ''user'',
       content = Some [ToolResult \<lparr>tr_toolUseId = Some ''t3'', tr_content = []\<rparr>, Text ''page C'']\<rparr>]"

definition demo_client :: bedrock_client where
  "demo_client modelId msgs = Inr (Some \<lparr>role = ''assistant'', content = Some [Text ''S'']\<rparr>)"

definition failing_client :: bedrock_client where
  "failing_client modelId msgs = Inl ''ThrottlingException''"

definition unbalanced_transcript :: "message list" where
  "unbalanced_transcript =
     [\<lparr>role = ''user'', content = Some [Text ''go'']\<rparr>,
      \<lparr>role = ''assistant'',
       content = Some [ToolUse \<lparr>tu_toolUseId = Some ''t1'', tu_name = ''navigate'', tu_input = None\<rparr>]\<rparr>,
      \<lparr>role = ''user'', content = Some [Text ''wait'']\<rparr>,
      \<lparr>role = ''assistant'', content = Some [Text ''ok'']\<rparr>,
      \<lparr>role = ''user'',
       content = Some [ToolResult \<lparr>tr_toolUseId = Some ''t1'', tr_content = []\<rparr>, Text ''page A'']\<rparr>,
      \<lparr>role = ''assistant'', content = Some [Text ''fine'']\<rparr>,
      \<lparr>role = ''user'', content = Some [Text ''more'']\<rparr>]"

definition demo_summary :: response where
  "demo_summary = Some \<lparr>role = ''assistant'', content = Some [Text ''S'']\<rparr>"

section \<open>Tool dispatch through the MCP session\<close>

text \<open>
  What \<^verbatim>\<open>session.call_tool\<close> hands back: content objects of the MCP library.
  \<open>OtherContent\<close> stands for an item that passes none of the three type tests; an
  absent field of a resource is an attribute \<^verbatim>\<open>hasattr\<close> does not find.
\<close>

record resource_contents =
  res_uri :: "string option"
  res_mimeType :: "string option"
  res_text :: "string option"

datatype mcp_content =
    TextContent string
  | ImageContent string
  | EmbeddedResource resource_contents
  | OtherContent

text \<open>
  The result of a call: its \<^verbatim>\<open>content\<close> (\<open>None\<close>: the result has no content list) and
  its \<^verbatim>\<open>isError\<close> flag. The client reads the content only.
\<close>

record call_tool_result =
  ctr_content :: "mcp_content list option"
  ctr_isError :: bool

text \<open>
  The session and the server behind it are outside the client: a call takes the server
  state, the tool name and the arguments, and either raises (\<open>Inl\<close> of \<^verbatim>\<open>str(e)\<close>) or
  returns a result, leaving a new server state. \<^verbatim>\<open>base64.b64decode\<close> is a parameter
  that may raise as well.
\<close>

type_synonym 's session = "'s \<Rightarrow> string \<Rightarrow> json \<Rightarrow> (string + call_tool_result) \<times> 's"
type_synonym decoder = "string \<Rightarrow> string + string"

text \<open>
  The loop over \<^verbatim>\<open>result.content\<close>. It carries \<^verbatim>\<open>bedrock_content\<close> and the global
  \<^verbatim>\<open>artifact_uris\<close>; an exception leaves the appends to \<^verbatim>\<open>artifact_uris\<close> made so far.
\<close>

fun convert_loop ::
  "decoder \<Rightarrow> mcp_content list \<Rightarrow> result_block list \<Rightarrow> string list
     \<Rightarrow> (string + result_block list) \<times> string list" where
  "convert_loop b64decode [] bedrock_content artifact_uris = (Inr bedrock_content, artifact_uris)"
| "convert_loop b64decode (ImageContent d # rest) bedrock_content artifact_uris =
     (case b64decode d of
        Inl e \<Rightarrow> (Inl e, artifact_uris)
      | Inr image_data \<Rightarrow>
          convert_loop b64decode rest
            (bedrock_content @
               [JsonBlock (JObj [(''filename'', JStr ''screenshot.jpeg'')]),
                ImageBlock \<lparr>img_format = ''jpeg'', img_bytes = image_data\<rparr>])
            artifact_uris)"
| "convert_loop b64decode (TextContent t # rest) bedrock_content artifact_uris =
     convert_loop b64decode rest
       (bedrock_content @ [JsonBlock (JObj [(''text'', JStr t)])]) artifact_uris"
| "convert_loop b64decode (EmbeddedResource resource # rest) bedrock_content artifact_uris =
     (case (case res_uri resource of
              Some u \<Rightarrow> (bedrock_content @ [JsonBlock (JObj [(''resource'', JStr u)])],
                         artifact_uris @ [u])
            | None \<Rightarrow> (bedrock_content, artifact_uris)) of
        (bedrock_content1, artifact_uris1) \<Rightarrow>
          convert_loop b64decode rest
            (case res_text resource of
               Some t \<Rightarrow> bedrock_content1 @ [JsonBlock (JObj [(''resource'', JStr t)])]
             | None \<Rightarrow> bedrock_content1)
            artifact_uris1)"
| "convert_loop b64decode (OtherContent # rest) bedrock_content artifact_uris =
     convert_loop b64decode rest bedrock_content artifact_uris"

text \<open>The body of the \<^verbatim>\<open>try\<close> block: \<open>Inl\<close> is an exception that reaches the handler.\<close>

definition try_tool_request ::
  "decoder \<Rightarrow> 's session \<Rightarrow> string \<Rightarrow> string option \<Rightarrow> json \<Rightarrow> 's \<times> string list
     \<Rightarrow> (string + content_item) \<times> ('s \<times> string list)" where
  "try_tool_request b64decode session tool_name tool_id tool_input st =
     (case st of (srv, artifact_uris) \<Rightarrow>
        (case session srv tool_name tool_input of
           (Inl e, srv') \<Rightarrow> (Inl e, (srv', artifact_uris))
         | (Inr result, srv') \<Rightarrow>
             (case convert_loop b64decode
                     (case ctr_content result of None \<Rightarrow> [] | Some cs \<Rightarrow> cs) []
                     artifact_uris of
                (Inl e, artifact_uris') \<Rightarrow> (Inl e, (srv', artifact_uris'))
              | (Inr bedrock_content, artifact_uris') \<Rightarrow>
                  (Inr (ToolResult \<lparr>tr_toolUseId = tool_id, tr_content = bedrock_content\<rparr>),
                   (srv', artifact_uris')))))"

text \<open>
  \<^verbatim>\<open>process_tool_request\<close>: the \<^verbatim>\<open>try\<close> block with its \<^verbatim>\<open>except Exception\<close> handler. The
  result type has no error alternative left.
\<close>

definition process_tool_request ::
  "decoder \<Rightarrow> 's session \<Rightarrow> string \<Rightarrow> string option \<Rightarrow> json \<Rightarrow> 's \<times> string list
     \<Rightarrow> content_item \<times> ('s \<times> string list)" where
  "process_tool_request b64decode session tool_name tool_id tool_input st =
     (case try_tool_request b64decode session tool_name tool_id tool_input st of
        (Inr r, st') \<Rightarrow> (r, st')
      | (Inl e, st') \<Rightarrow>
          (ToolResult \<lparr>tr_toolUseId = tool_id,
                       tr_content = [JsonBlock (JObj [(''error'', JStr e)])]\<rparr>, st'))"

section \<open>The server tools \<^verbatim>\<open>write_file\<close> and \<^verbatim>\<open>scroll\<close>\<close>

text \<open>\<^verbatim>\<open>s.endswith(suffix)\<close>\<close>

definition py_endswith :: "string \<Rightarrow> string \<Rightarrow> bool" where
  "py_endswith s suffix =
     (length suffix \<le> length s \<and> drop (length s - length suffix) s = suffix)"

text \<open>
  The file system is outside the model: opening \<^verbatim>\<open>full_filename\<close> for writing and
  writing the content either raises or succeeds, and leaves a new file-system state.
\<close>

type_synonym 'fs file_writer = "'fs \<Rightarrow> string \<Rightarrow> string \<Rightarrow> (string + unit) \<times> 'fs"

text \<open>A tool returns an embedded resource or a dictionary.\<close>

datatype tool_return =
    ReturnResource resource_contents
  | ReturnDict json

definition mime_type_of :: "string \<Rightarrow> string" where
  "mime_type_of filename =
     (if py_endswith filename ''.md'' then ''text/markdown''
      else if py_endswith filename ''.html'' then ''text/html''
      else if py_endswith filename ''.json'' then ''application/json''
      else ''text/plain'')"

text \<open>
  \<^verbatim>\<open>TextResourceContents(uri=resource_uri, ...)\<close> validates the string as an \<^verbatim>\<open>AnyUrl\<close>
  of the pydantic library, which is outside the repository: the validation raises, or it
  yields the url in its normal form (percent-encoded, dot segments removed). That form is
  what \<^verbatim>\<open>resource.uri.unicode_string()\<close> gives the client, and it is the \<open>res_uri\<close> of
  the model.
\<close>

type_synonym url_validator = "string \<Rightarrow> string + string"

text \<open>
  \<^verbatim>\<open>write_file\<close> of \<^verbatim>\<open>11-mcp-server.py\<close>. Writing the file and building the resource are
  both inside the \<^verbatim>\<open>try\<close> block; the logging calls on \<^verbatim>\<open>ctx\<close> are left out.
\<close>

definition write_file ::
  "'fs file_writer \<Rightarrow> url_validator \<Rightarrow> string \<Rightarrow> string \<Rightarrow> string \<Rightarrow> 'fs
     \<Rightarrow> tool_return \<times> 'fs" where
  "write_file open_write any_url SESSION_ID filename file_content fs =
     (let full_filename = ''artefacts/'' @ SESSION_ID @ ''/'' @ filename in
      case open_write fs full_filename file_content of
        (Inl e, fs') \<Rightarrow>
          (ReturnDict (JObj [(''written'', JBool False), (''error'', JStr e)]), fs')
      | (Inr u, fs') \<Rightarrow>
          (let resource_uri = ''artifact://'' @ SESSION_ID @ ''/'' @ filename;
               mime_type = mime_type_of filename
           in case any_url resource_uri of
                Inl e \<Rightarrow>
                  (ReturnDict (JObj [(''written'', JBool False), (''error'', JStr e)]), fs')
              | Inr uri \<Rightarrow>
                  (ReturnResource \<lparr>res_uri = Some uri, res_mimeType = Some mime_type,
                                    res_text = Some (take 100 file_content)\<rparr>, fs')))"









text \<open>
  An example session that answers as the session of the MCP library does: a result for
  the tools it knows, and for every other name a result with \<^verbatim>\<open>isError\<close> set whose
  content is one text item holding the message. It does not raise.
\<close>

definition demo_session :: "nat session" where
  "demo_session srv tool_name tool_input =
     (if tool_name = ''get_page_info''
        then (Inr \<lparr>ctr_content = Some [TextContent ''Current page: Title: T, URL: U''],
                   ctr_isError = False\<rparr>, srv)
      else if tool_name = ''write_file''
        then (Inr \<lparr>ctr_content = Some [EmbeddedResource
                     \<lparr>res_uri = Some ''artifact://sid/r.md'',
                      res_mimeType = Some ''text/markdown'',
                      res_text = Some ''# Title''\<rparr>],
                   ctr_isError = False\<rparr>, Suc srv)
      else (Inr \<lparr>ctr_content = Some [TextContent (''Unknown tool: '' @ tool_name)],
                 ctr_isError = True\<rparr>, srv))"

text \<open>An example session whose connection is closed: every call raises.\<close>

definition closed_session :: "nat session" where
  "closed_session srv tool_name tool_input = (Inl ''Connection closed'', srv)"

text \<open>
  An example decoder. It is a stand-in that rejects data whose length is not a multiple
  of four and hands other data back as it is; no example below decodes an image.
\<close>

definition demo_decoder :: decoder where
  "demo_decoder d = (if length d mod 4 = 0 then Inr d else Inl ''Incorrect padding'')"

text \<open>
  An example of the url validation on the strings used below: a space is
  percent-encoded, as \<^verbatim>\<open>AnyUrl\<close> does, and a string without a space is left as it is.
\<close>

definition encode_spaces :: url_validator where
  "encode_spaces url = Inr (concat (map (\<lambda>c. if c = CHR '' '' then ''%20'' else [c]) url))"

text \<open>
  An example file system on which only the session directory \<^verbatim>\<open>artefacts/{sid}\<close> exists:
  a file can be written directly in it, and nowhere else.
\<close>

definition session_dir_writer :: "string \<Rightarrow> (string \<times> string) list file_writer" where
  "session_dir_writer sid fs path data =
     (let d = ''artefacts/'' @ sid @ ''/'' in
      if take (length d) path = d \<and> drop (length d) path \<noteq> [] \<and>
         CHR ''/'' \<notin> set (drop (length d) path)
      then (Inr (), (path, data) # fs)
      else (Inl ''No such file or directory'', fs))"


section \<open>The tool-result turn of the conversation loops\<close>

text \<open>
  \<^verbatim>\<open>tool.get('input', {})\<close> followed by \<^verbatim>\<open>json.loads\<close> when the input is a string;
  \<^verbatim>\<open>json.loads\<close> is a parameter that may raise.
\<close>

definition parse_tool_input :: "(string \<Rightarrow> string + json) \<Rightarrow> json option \<Rightarrow> string + json" where
  "parse_tool_input json_loads tool_input =
     (case tool_input of
        None \<Rightarrow> Inr (JObj [])
      | Some (JStr s) \<Rightarrow> json_loads s
      | Some j \<Rightarrow> Inr j)"

text \<open>
  The \<^verbatim>\<open>for content in output_message.get('content', [])\<close> loop of \<^verbatim>\<open>run_client\<close>
  (\<^verbatim>\<open>11-mcp-client.py\<close>). \<open>Inl\<close> is an exception that leaves the loop; the state is the
  server state with \<^verbatim>\<open>artifact_uris\<close>.
\<close>

fun dispatch_loop ::
  "decoder \<Rightarrow> (string \<Rightarrow> string + json) \<Rightarrow> 's session \<Rightarrow> content_item list
     \<Rightarrow> content_item list \<Rightarrow> 's \<times> string list
     \<Rightarrow> string + (content_item list \<times> ('s \<times> string list))" where
  "dispatch_loop b64decode json_loads session [] tool_content st = Inr (tool_content, st)"
| "dispatch_loop b64decode json_loads session (c # rest) tool_content st =
     (case c_toolUse c of
        None \<Rightarrow> dispatch_loop b64decode json_loads session rest tool_content st
      | Some tool \<Rightarrow>
          (case parse_tool_input json_loads (tu_input tool) of
             Inl e \<Rightarrow> Inl e
           | Inr tool_input \<Rightarrow>
               (case process_tool_request b64decode session (tu_name tool) (tu_toolUseId tool)
                       tool_input st of
                  (result_content, st') \<Rightarrow>
                    dispatch_loop b64decode json_loads session rest
                      (tool_content @ [result_content]) st')))"

text \<open>
  The text taken from \<^verbatim>\<open>page_info_result["toolResult"]["content"][0]\<close>; \<open>py_str\<close> is
  Python's \<^verbatim>\<open>str\<close> on a value that is not a string.
\<close>

definition page_info_text :: "(json \<Rightarrow> string) \<Rightarrow> content_item \<Rightarrow> string + string" where
  "page_info_text py_str page_info_result =
     (case c_toolResult page_info_result of
        None \<Rightarrow> Inl ''KeyError''
      | Some r \<Rightarrow>
          (case tr_content r of
             [] \<Rightarrow> Inl ''IndexError''
           | page_info_content # others \<Rightarrow>
               (case page_info_content of
                  ImageBlock i \<Rightarrow> Inr ''Page info not available''
                | JsonBlock j \<Rightarrow>
                    (case j of
                       JObj kvs \<Rightarrow>
                         (case map_of kvs ''text'' of
                            Some (JStr t) \<Rightarrow> Inr t
                          | Some v \<Rightarrow> Inr (py_str v)
                          | None \<Rightarrow> Inr (py_str j))
                     | _ \<Rightarrow> Inr (py_str j)))))"

text \<open>
  One pass through the body of \<^verbatim>\<open>while stop_reason == 'tool_use'\<close> in \<^verbatim>\<open>run_client\<close>, up
  to the message \<^verbatim>\<open>tool_result_message\<close> that is appended to the transcript.
\<close>

definition run_client_turn ::
  "decoder \<Rightarrow> (string \<Rightarrow> string + json) \<Rightarrow> (json \<Rightarrow> string) \<Rightarrow> 's session \<Rightarrow> message
     \<Rightarrow> 's \<times> string list \<Rightarrow> string + (message \<times> ('s \<times> string list))" where
  "run_client_turn b64decode json_loads py_str session output_message st =
     (case dispatch_loop b64decode json_loads session (get_content output_message) [] st of
        Inl e \<Rightarrow> Inl e
      | Inr (tool_content, st1) \<Rightarrow>
          (case process_tool_request b64decode session ''get_page_info'' (Some ''page_info'')
                  (JObj []) st1 of
             (page_info_result, st2) \<Rightarrow>
               (case page_info_text py_str page_info_result of
                  Inl e \<Rightarrow> Inl e
                | Inr t \<Rightarrow>
                    Inr (\<lparr>role = ''user'',
                          content = Some (tool_content @ [Text (''Current page: '' @ t)])\<rparr>,
                         st2))))"

text \<open>
  The effectors of \<^verbatim>\<open>08-type-scroll-tools.py\<close> act on the browser page, the file system
  and the console; they are parameters on a state \<open>'p\<close> and may raise, except
  \<^verbatim>\<open>get_page_info\<close>, which catches every exception itself.
\<close>

record 'p effectors =
  eff_navigate :: "'p \<Rightarrow> json \<Rightarrow> string + (json \<times> 'p)"
  eff_take_screenshot :: "'p \<Rightarrow> string + (string \<times> 'p)"
  eff_read_file :: "'p \<Rightarrow> string \<Rightarrow> string + string"
  eff_click :: "'p \<Rightarrow> json \<Rightarrow> json \<Rightarrow> string + (json \<times> 'p)"
  eff_scroll :: "'p \<Rightarrow> json \<Rightarrow> json \<Rightarrow> string + (json \<times> 'p)"
  eff_type_text :: "'p \<Rightarrow> json \<Rightarrow> json \<Rightarrow> string + (json \<times> 'p)"
  eff_ask_user :: "'p \<Rightarrow> json \<Rightarrow> string + (json \<times> 'p)"
  eff_get_page_info :: "'p \<Rightarrow> string \<times> string"

text \<open>\<^verbatim>\<open>tool_input.get(key, default)\<close>; only a dictionary has \<^verbatim>\<open>get\<close>.\<close>

definition py_get :: "json \<Rightarrow> string \<Rightarrow> json \<Rightarrow> string + json" where
  "py_get d k dflt =
     (case d of
        JObj kvs \<Rightarrow> Inr (case map_of kvs k of Some v \<Rightarrow> v | None \<Rightarrow> dflt)
      | _ \<Rightarrow> Inl ''AttributeError'')"

text \<open>The \<^verbatim>\<open>tool_content.append\<close> the branches for a plain result have in common.\<close>

definition append_json_result ::
  "string option \<Rightarrow> string + (json \<times> 'p) \<Rightarrow> string + (content_item list \<times> 'p)" where
  "append_json_result tool_id outcome =
     (case outcome of
        Inl e \<Rightarrow> Inl e
      | Inr (result, page') \<Rightarrow>
          Inr ([ToolResult \<lparr>tr_toolUseId = tool_id, tr_content = [JsonBlock result]\<rparr>], page'))"

text \<open>
  The \<^verbatim>\<open>if tool_name == ... elif ...\<close> chain of \<^verbatim>\<open>run_example\<close>; the value is what the
  chain appends to \<^verbatim>\<open>tool_content\<close>. The chain has no \<^verbatim>\<open>else\<close>.
\<close>

definition example_tool ::
  "'p effectors \<Rightarrow> string \<Rightarrow> string option \<Rightarrow> json \<Rightarrow> 'p \<Rightarrow> string + (content_item list \<times> 'p)" where
  "example_tool E tool_name tool_id tool_input page =
     (if tool_name = ''navigate'' then
        (case py_get tool_input ''url'' (JStr ''https://aws.amazon.com'') of
           Inl e \<Rightarrow> Inl e
         | Inr url \<Rightarrow> append_json_result tool_id (eff_navigate E page url))
      else if tool_name = ''screenshot'' then
        (case eff_take_screenshot E page of
           Inl e \<Rightarrow> Inl e
         | Inr (filename, page') \<Rightarrow>
             (case eff_read_file E page' filename of
                Inl e \<Rightarrow> Inl e
              | Inr image_bytes \<Rightarrow>
                  Inr ([ToolResult \<lparr>tr_toolUseId = tool_id,
                          tr_content = [JsonBlock (JObj [(''filename'', JStr filename)]),
                                        ImageBlock \<lparr>img_format = ''png'',
                                                    img_bytes = image_bytes\<rparr>]\<rparr>], page')))
      else if tool_name = ''click'' then
        (case py_get tool_input ''x'' (JInt 0) of
           Inl e \<Rightarrow> Inl e
         | Inr x \<Rightarrow>
             (case py_get tool_input ''y'' (JInt 0) of
                Inl e \<Rightarrow> Inl e
              | Inr y \<Rightarrow> append_json_result tool_id (eff_click E page x y)))
      else if tool_name = ''scroll'' then
        (case py_get tool_input ''direction'' (JStr ''down'') of
           Inl e \<Rightarrow> Inl e
         | Inr direction \<Rightarrow>
             (case py_get tool_input ''amount'' (JInt 500) of
                Inl e \<Rightarrow> Inl e
              | Inr amount \<Rightarrow> append_json_result tool_id (eff_scroll E page direction amount)))
      else if tool_name = ''type'' then
        (case py_get tool_input ''text'' (JStr []) of
           Inl e \<Rightarrow> Inl e
         | Inr txt \<Rightarrow>
             (case py_get tool_input ''submit'' (JBool False) of
                Inl e \<Rightarrow> Inl e
              | Inr submit \<Rightarrow> append_json_result tool_id (eff_type_text E page txt submit)))
      else if tool_name = ''ask_user'' then
        (case py_get tool_input ''question'' (JStr ''What would you like to do next?'') of
           Inl e \<Rightarrow> Inl e
         | Inr question \<Rightarrow> append_json_result tool_id (eff_ask_user E page question))
      else Inr ([], page))"

fun example_loop ::
  "'p effectors \<Rightarrow> (string \<Rightarrow> string + json) \<Rightarrow> content_item list \<Rightarrow> content_item list \<Rightarrow> 'p
     \<Rightarrow> string + (content_item list \<times> 'p)" where
  "example_loop E json_loads [] tool_content page = Inr (tool_content, page)"
| "example_loop E json_loads (c # rest) tool_content page =
     (case c_toolUse c of
        None \<Rightarrow> example_loop E json_loads rest tool_content page
      | Some tool \<Rightarrow>
          (case parse_tool_input json_loads (tu_input tool) of
             Inl e \<Rightarrow> Inl e
           | Inr tool_input \<Rightarrow>
               (case example_tool E (tu_name tool) (tu_toolUseId tool) tool_input page of
                  Inl e \<Rightarrow> Inl e
                | Inr (appended, page') \<Rightarrow>
                    example_loop E json_loads rest (tool_content @ appended) page')))"

definition apostrophe :: string where
  "apostrophe = [CHR 0x27]"

definition browser_text :: "string \<times> string \<Rightarrow> string" where
  "browser_text page_info =
     ''Current page: Title: '' @ apostrophe @ fst page_info @ apostrophe
       @ '', URL: '' @ apostrophe @ snd page_info @ apostrophe"

text \<open>
  One pass through the body of \<^verbatim>\<open>while stop_reason == 'tool_use'\<close> in \<^verbatim>\<open>run_example\<close>
  (\<^verbatim>\<open>08-type-scroll-tools.py\<close>), up to \<^verbatim>\<open>tool_result_message\<close>.
\<close>

definition run_example_turn ::
  "'p effectors \<Rightarrow> (string \<Rightarrow> string + json) \<Rightarrow> message \<Rightarrow> 'p \<Rightarrow> string + (message \<times> 'p)" where
  "run_example_turn E json_loads output_message page =
     (case example_loop E json_loads (get_content output_message) [] page of
        Inl e \<Rightarrow> Inl e
      | Inr (tool_content, page') \<Rightarrow>
          Inr (\<lparr>role = ''user'',
                content = Some (tool_content @ [Text (browser_text (eff_get_page_info E page'))])\<rparr>,
               page'))"

text \<open>The request ids of a turn and the result ids of a turn, in order.\<close>

definition request_ids :: "content_item list \<Rightarrow> string option list" where
  "request_ids cs =
     concat (map (\<lambda>c. case c_toolUse c of Some u \<Rightarrow> [tu_toolUseId u] | None \<Rightarrow> []) cs)"

definition result_ids :: "content_item list \<Rightarrow> string option list" where
  "result_ids cs =
     concat (map (\<lambda>c. case c_toolResult c of Some r \<Rightarrow> [tr_toolUseId r] | None \<Rightarrow> []) cs)"

text \<open>An item that is a tool result and nothing else.\<close>

definition is_tool_result :: "content_item \<Rightarrow> bool" where
  "is_tool_result c = (case c_toolResult c of Some r \<Rightarrow> c = ToolResult r | None \<Rightarrow> False)"

section \<open>The compaction operations on a store of objects\<close>

text \<open>
  Python lists and dictionaries are objects that are reached through references and can
  be changed in place. For the question whether the compaction operations change their
  argument, the transcript is laid out in a store: an address is an index into the list
  of objects, allocation appends an object, and assignment replaces the object at an
  address. A message list is a list object of references to message dictionaries, whose
  \<^verbatim>\<open>content\<close> refers to a list object of references to content items. A content item
  is kept as a value: no operation assigns to one.
\<close>

datatype obj =
    ListObj "nat list"
  | MsgObj string "nat option"
  | ItemObj content_item

type_synonym store = "obj list"

text \<open>
  An operation on the store returns a value or raises, and leaves a store in both
  cases.
\<close>

type_synonym 'a heap_op = "store \<Rightarrow> (string + 'a) \<times> store"

definition ret :: "'a \<Rightarrow> 'a heap_op" where
  "ret x = (\<lambda>s. (Inr x, s))"

definition raise :: "string \<Rightarrow> 'a heap_op" where
  "raise e = (\<lambda>s. (Inl e, s))"

definition bnd :: "'a heap_op \<Rightarrow> ('a \<Rightarrow> 'b heap_op) \<Rightarrow> 'b heap_op" where
  "bnd m f = (\<lambda>s. case m s of (Inl e, s') \<Rightarrow> (Inl e, s') | (Inr x, s') \<Rightarrow> f x s')"

definition alloc :: "obj \<Rightarrow> nat heap_op" where
  "alloc ob = (\<lambda>s. (Inr (length s), s @ [ob]))"

definition lookup :: "nat \<Rightarrow> obj heap_op" where
  "lookup a = (\<lambda>s. if a < length s then (Inr (s ! a), s) else (Inl ''dangling reference'', s))"

definition assign :: "nat \<Rightarrow> obj \<Rightarrow> unit heap_op" where
  "assign a ob =
     (\<lambda>s. if a < length s then (Inr (), s[a := ob]) else (Inl ''dangling reference'', s))"

definition read_list :: "nat \<Rightarrow> nat list heap_op" where
  "read_list a = bnd (lookup a) (\<lambda>ob. case ob of ListObj xs \<Rightarrow> ret xs | _ \<Rightarrow> raise ''TypeError'')"

definition read_msg :: "nat \<Rightarrow> (string \<times> nat option) heap_op" where
  "read_msg a = bnd (lookup a) (\<lambda>ob. case ob of MsgObj r c \<Rightarrow> ret (r, c) | _ \<Rightarrow> raise ''TypeError'')"

definition read_item :: "nat \<Rightarrow> content_item heap_op" where
  "read_item a = bnd (lookup a) (\<lambda>ob. case ob of ItemObj v \<Rightarrow> ret v | _ \<Rightarrow> raise ''TypeError'')"

text \<open>
  \<^verbatim>\<open>copy.deepcopy\<close> with its memo table (original address, address of the copy): an
  object that is reached twice is copied once.
\<close>

type_synonym memo = "(nat \<times> nat) list"

definition copy_item :: "memo \<Rightarrow> nat \<Rightarrow> (nat \<times> memo) heap_op" where
  "copy_item memo a =
     (case map_of memo a of
        Some b \<Rightarrow> ret (b, memo)
      | None \<Rightarrow>
          bnd (read_item a) (\<lambda>v.
          bnd (alloc (ItemObj v)) (\<lambda>b.
          ret (b, (a, b) # memo))))"

fun copy_items :: "memo \<Rightarrow> nat list \<Rightarrow> (nat list \<times> memo) heap_op" where
  "copy_items memo [] = ret ([], memo)"
| "copy_items memo (a # rest) =
     bnd (copy_item memo a) (\<lambda>(b, memo1).
     bnd (copy_items memo1 rest) (\<lambda>(bs, memo2).
     ret (b # bs, memo2)))"

definition copy_content :: "memo \<Rightarrow> nat \<Rightarrow> (nat \<times> memo) heap_op" where
  "copy_content memo l =
     (case map_of memo l of
        Some b \<Rightarrow> ret (b, memo)
      | None \<Rightarrow>
          bnd (read_list l) (\<lambda>items.
          bnd (copy_items memo items) (\<lambda>(bs, memo1).
          bnd (alloc (ListObj bs)) (\<lambda>b.
          ret (b, (l, b) # memo1)))))"

definition copy_msg :: "memo \<Rightarrow> nat \<Rightarrow> (nat \<times> memo) heap_op" where
  "copy_msg memo a =
     (case map_of memo a of
        Some b \<Rightarrow> ret (b, memo)
      | None \<Rightarrow>
          bnd (read_msg a) (\<lambda>(r, c).
          case c of
            None \<Rightarrow>
              bnd (alloc (MsgObj r None)) (\<lambda>b.
              ret (b, (a, b) # memo))
          | Some l \<Rightarrow>
              bnd (copy_content memo l) (\<lambda>(l', memo1).
              bnd (alloc (MsgObj r (Some l'))) (\<lambda>b.
              ret (b, (a, b) # memo1)))))"

fun copy_msgs :: "memo \<Rightarrow> nat list \<Rightarrow> (nat list \<times> memo) heap_op" where
  "copy_msgs memo [] = ret ([], memo)"
| "copy_msgs memo (a # rest) =
     bnd (copy_msg memo a) (\<lambda>(b, memo1).
     bnd (copy_msgs memo1 rest) (\<lambda>(bs, memo2).
     ret (b # bs, memo2)))"

text \<open>
  \<^verbatim>\<open>processed_messages = copy.deepcopy(messages)\<close>: the address of the new list and the
  references it holds.
\<close>

definition deepcopy_messages :: "nat \<Rightarrow> (nat \<times> nat list) heap_op" where
  "deepcopy_messages l =
     bnd (read_list l) (\<lambda>msgs.
     bnd (copy_msgs [] msgs) (\<lambda>(bs, memo).
     bnd (alloc (ListObj bs)) (\<lambda>pl.
     ret (pl, bs))))"

text \<open>Reading a transcript off the store, without changing it.\<close>

fun load_items :: "nat list \<Rightarrow> content_item list heap_op" where
  "load_items [] = ret []"
| "load_items (a # rest) =
     bnd (read_item a) (\<lambda>v.
     bnd (load_items rest) (\<lambda>vs.
     ret (v # vs)))"

definition load_msg :: "nat \<Rightarrow> message heap_op" where
  "load_msg a =
     bnd (read_msg a) (\<lambda>(r, c).
     case c of
       None \<Rightarrow> ret \<lparr>role = r, content = None\<rparr>
     | Some cl \<Rightarrow>
         bnd (read_list cl) (\<lambda>items.
         bnd (load_items items) (\<lambda>vs.
         ret \<lparr>role = r, content = Some vs\<rparr>)))"

fun load_msgs :: "nat list \<Rightarrow> message list heap_op" where
  "load_msgs [] = ret []"
| "load_msgs (a # rest) =
     bnd (load_msg a) (\<lambda>m.
     bnd (load_msgs rest) (\<lambda>ms.
     ret (m # ms)))"

definition load_messages :: "nat \<Rightarrow> message list heap_op" where
  "load_messages l = bnd (read_list l) load_msgs"

text \<open>
  \<^verbatim>\<open>remove_media_except_last_turn\<close> on the store. The inner loop collects the references
  that stay; \<^verbatim>\<open>message['content'] = new_content\<close> is the one assignment to an existing
  object, and the object is a message of the copy.
\<close>

fun strip_loop_st :: "nat list \<Rightarrow> nat list \<Rightarrow> bool \<Rightarrow> (nat list \<times> bool) heap_op" where
  "strip_loop_st [] new_content removed_media = ret (new_content, removed_media)"
| "strip_loop_st (a # rest) new_content removed_media =
     bnd (read_item a) (\<lambda>content_item.
     if c_text content_item \<noteq> None
       then strip_loop_st rest (new_content @ [a]) removed_media
     else if c_image content_item \<noteq> None \<or> c_json content_item \<noteq> None
       then strip_loop_st rest new_content True
     else strip_loop_st rest (new_content @ [a]) removed_media)"

definition strip_message_st :: "nat \<Rightarrow> unit heap_op" where
  "strip_message_st b =
     bnd (read_msg b) (\<lambda>(r, c).
     case c of
       None \<Rightarrow> ret ()
     | Some cl \<Rightarrow>
         bnd (read_list cl) (\<lambda>items.
         bnd (strip_loop_st items [] False) (\<lambda>(new_content, removed_media).
         bnd (if removed_media \<and> new_content = []
              then bnd (alloc (ItemObj placeholder)) (\<lambda>p. ret (new_content @ [p]))
              else ret new_content) (\<lambda>final_content.
         bnd (alloc (ListObj final_content)) (\<lambda>nl.
         assign b (MsgObj r (Some nl)))))))"

fun read_roles :: "nat list \<Rightarrow> string list heap_op" where
  "read_roles [] = ret []"
| "read_roles (a # rest) =
     bnd (read_msg a) (\<lambda>(r, c).
     bnd (read_roles rest) (\<lambda>rs.
     ret (r # rs)))"

text \<open>
  The outer loop; which indices are skipped depends on the roles only, so the test of the
  value-level function is applied to messages that carry just the roles.
\<close>

fun process_st :: "message list \<Rightarrow> nat list \<Rightarrow> nat \<Rightarrow> unit heap_op" where
  "process_st roles [] i = ret ()"
| "process_st roles (b # rest) i =
     bnd (if skip_last_turn roles i then ret () else strip_message_st b) (\<lambda>u.
     process_st roles rest (i + 1))"

definition remove_media_except_last_turn_st :: "nat \<Rightarrow> nat heap_op" where
  "remove_media_except_last_turn_st messages =
     bnd (read_list messages) (\<lambda>msgs.
     if length msgs < 2 then ret messages
     else
       bnd (deepcopy_messages messages) (\<lambda>(processed_messages, bs).
       bnd (read_roles bs) (\<lambda>rs.
       bnd (process_st (map (\<lambda>r. \<lparr>role = r, content = None\<rparr>) rs) bs 0) (\<lambda>u.
       ret processed_messages))))"

text \<open>
  \<^verbatim>\<open>summarize_conversation\<close> on the store. Its decisions depend on the values of the
  copied messages, which are read off the store; every list and dictionary the function
  creates is allocated, and nothing is assigned to.
\<close>

fun filter_refs :: "(content_item \<Rightarrow> bool) \<Rightarrow> nat list \<Rightarrow> nat list heap_op" where
  "filter_refs P [] = ret []"
| "filter_refs P (a # rest) =
     bnd (read_item a) (\<lambda>v.
     bnd (filter_refs P rest) (\<lambda>as.
     ret (if P v then a # as else as)))"

definition tool_use_content_st :: "nat list \<Rightarrow> nat list heap_op" where
  "tool_use_content_st to_summarize =
     (if to_summarize = [] then ret []
      else
        bnd (read_msg (last to_summarize)) (\<lambda>(r, c).
        if r = ''assistant''
        then (case c of None \<Rightarrow> ret [] | Some cl \<Rightarrow> bnd (read_list cl) (filter_refs has_toolUse))
        else ret []))"

text \<open>The part of the function after the model call, with its \<^verbatim>\<open>except\<close> branch.\<close>

definition summary_result_st ::
  "nat \<Rightarrow> nat \<Rightarrow> nat list \<Rightarrow> nat list \<Rightarrow> message list \<Rightarrow> string + response \<Rightarrow> nat heap_op" where
  "summary_result_st messages processed_messages bs tu pm outcome =
     (case outcome of
        Inl e \<Rightarrow> ret processed_messages
      | Inr summary_response \<Rightarrow>
          bnd (alloc (ItemObj (Text (''[CONVERSATION SUMMARY: ''
                                       @ summary_text_of summary_response @ '']'')))) (\<lambda>t.
          bnd (alloc (ListObj (t # tu))) (\<lambda>summary_content.
          bnd (alloc (MsgObj ''assistant'' (Some summary_content))) (\<lambda>summary_message.
          bnd (alloc (ListObj ([bs ! 0, summary_message]
                                @ drop (length bs - message_count_of pm) bs))) (\<lambda>result.
          case count_loop (assemble pm summary_response) 0 0 of
            (n_tool_use, n_tool_result) \<Rightarrow>
              if n_tool_use \<noteq> n_tool_result then ret messages
              else ret result)))))"

text \<open>The part of the function between the deep copy and the model call.\<close>

definition summarize_copy_st ::
  "bedrock_client \<Rightarrow> nat \<Rightarrow> nat \<Rightarrow> nat list \<Rightarrow> message list \<Rightarrow> nat heap_op" where
  "summarize_copy_st bedrock_client messages processed_messages bs pm =
     bnd (alloc (ListObj (drop (length bs - message_count_of pm) bs))) (\<lambda>last_messages.
     bnd (alloc (ListObj (drop 1 (take (length bs - message_count_of pm) bs)))) (\<lambda>to_summarize.
     if to_summarize_of pm = [] then ret processed_messages
     else
       bnd (tool_use_content_st (drop 1 (take (length bs - message_count_of pm) bs))) (\<lambda>tu.
       bnd (alloc (ListObj tu)) (\<lambda>tool_use_content.
       summary_result_st messages processed_messages bs tu pm
         (bedrock_client SUMMARY_MODEL_ID (summarization_request pm))))))"

definition summarize_conversation_st :: "bedrock_client \<Rightarrow> nat \<Rightarrow> nat heap_op" where
  "summarize_conversation_st bedrock_client messages =
     bnd (read_list messages) (\<lambda>msgs.
     if length msgs \<le> KEEP_LAST_TURNS * 2 + 1 then ret messages
     else
       bnd (deepcopy_messages messages) (\<lambda>(processed_messages, bs).
       bnd (load_msgs bs) (\<lambda>pm.
       summarize_copy_st bedrock_client messages processed_messages bs pm)))"

text \<open>
  What an operation may do to a store whose first \<open>n\<close> objects are the caller's: the
  store only grows, the first \<open>n\<close> objects stay as they are, and a returned value
  satisfies \<open>Q\<close>.
\<close>

definition frame :: "nat \<Rightarrow> 'a heap_op \<Rightarrow> ('a \<Rightarrow> bool) \<Rightarrow> bool" where
  "frame n m Q =
     (\<forall>s. n \<le> length s \<longrightarrow>
        (case m s of
           (r, s') \<Rightarrow> length s \<le> length s' \<and> take n s' = take n s \<and>
                      (case r of Inr x \<Rightarrow> Q x | Inl e \<Rightarrow> True)))"

text \<open>Every copy recorded in the memo table lies at or above address \<open>n\<close>.\<close>

definition memo_fresh :: "nat \<Rightarrow> memo \<Rightarrow> bool" where
  "memo_fresh n memo = (\<forall>(a, b) \<in> set memo. n \<le> b)"

text \<open>Laying a transcript out in the store, every object at an address of its own.\<close>

fun put_items :: "content_item list \<Rightarrow> nat list heap_op" where
  "put_items [] = ret []"
| "put_items (v # vs) =
     bnd (alloc (ItemObj v)) (\<lambda>a.
     bnd (put_items vs) (\<lambda>as.
     ret (a # as)))"

definition put_msg :: "message \<Rightarrow> nat heap_op" where
  "put_msg m =
     (case content m of
        None \<Rightarrow> alloc (MsgObj (role m) None)
      | Some vs \<Rightarrow>
          bnd (put_items vs) (\<lambda>as.
          bnd (alloc (ListObj as)) (\<lambda>cl.
          alloc (MsgObj (role m) (Some cl)))))"

fun put_msgs :: "message list \<Rightarrow> nat list heap_op" where
  "put_msgs [] = ret []"
| "put_msgs (m # ms) =
     bnd (put_msg m) (\<lambda>a.
     bnd (put_msgs ms) (\<lambda>as.
     ret (a # as)))"

definition put_messages :: "message list \<Rightarrow> nat heap_op" where
  "put_messages ms = bnd (put_msgs ms) (\<lambda>as. alloc (ListObj as))"

text \<open>Example stores: the two example transcripts, laid out in an empty store.\<close>

definition media_transcript :: "message list" where
  "media_transcript =
     [\<lparr>role = ''user'', content = Some [Text ''go'']\<rparr>,
      \<lparr>role = ''assistant'', content = Some [Json JNull]\<rparr>,
      \<lparr>role = ''user'', content = Some [Text ''next'']\<rparr>,
      \<lparr>role = ''assistant'', content = Some [Text ''done'']\<rparr>]"

definition media_store :: store where
  "media_store = snd (put_messages media_transcript [])"

definition demo_store :: store where
  "demo_store = snd (put_messages demo_transcript [])"

text \<open>
  A read-only operation: it leaves the store as it is, and what it returns on a store it
  returns on every store that extends it.
\<close>

definition read_only :: "'a heap_op \<Rightarrow> bool" where
  "read_only m =
     (\<forall>s s' x s1. length s \<le> length s' \<longrightarrow> take (length s) s' = s \<longrightarrow> m s = (Inr x, s1) \<longrightarrow>
        s1 = s \<and> m s' = (Inr x, s'))"

section \<open>Properties of the empty-text filter\<close>

lemma dropWhile_all_iff: "(\<forall>x \<in> set (dropWhile P t). P x) \<longleftrightarrow> (\<forall>x \<in> set t. P x)"
  by (induction t) auto

lemma py_strip_empty_iff: "py_strip t = [] \<longleftrightarrow> blank t"
  by (simp add: py_strip_def blank_def dropWhile_all_iff)

lemma filter_loop_eq: "filter_loop cs acc = acc @ filter keep_item cs"
  by (induction cs arbitrary: acc) auto

lemma py_isspace_space: "py_isspace (CHR '' '')"
  by (simp add: py_isspace_def)

text \<open>
  C9, as stated, fails: a text item holding a single space is not \<open>Text("")\<close>, yet the
  filter drops it, because the test is on \<^verbatim>\<open>content_item['text'].strip()\<close>.
\<close>

theorem filter_empty_text_content_counterexample:
  "filter_empty_text_content \<lparr>role = ''assistant'', content = Some [Text '' '']\<rparr>
     \<noteq> spec_filter_empty_text \<lparr>role = ''assistant'', content = Some [Text '' '']\<rparr>"
  by (simp add: filter_empty_text_content_def spec_filter_empty_text_def keep_item_def
      py_strip_def py_isspace_space Text_def empty_item_def)

text \<open>
  C9 (amended): the filter removes exactly the content items that have a \<open>text\<close> key
  whose text is empty or consists of whitespace only, and keeps every other item (items
  without a text key, and text items with a non-whitespace character) in their original
  order; a message without a content key is returned as it is.
\<close>

theorem filter_empty_text_content_removes_blank:
  "filter_empty_text_content m =
     (case content m of
        None \<Rightarrow> m
      | Some cs \<Rightarrow>
          m\<lparr>content := Some (filter (\<lambda>c. case c_text c of None \<Rightarrow> True
                                               | Some t \<Rightarrow> \<not> blank t) cs)\<rparr>)"
proof (cases "content m")
  case None
  then show ?thesis by (simp add: filter_empty_text_content_def)
next
  case (Some cs)
  have "keep_item = (\<lambda>c. case c_text c of None \<Rightarrow> True | Some t \<Rightarrow> \<not> blank t)"
    by (rule ext) (simp add: keep_item_def py_strip_empty_iff split: option.split)
  with Some show ?thesis
    by (simp add: filter_empty_text_content_def filter_loop_eq)
qed

theorem filter_empty_text_content_removes_blank_witness:
  "filter_empty_text_content
       \<lparr>role = ''assistant'',
        content = Some [Text [], Text ''ok'', Text '' '', Json JNull]\<rparr>
     = \<lparr>role = ''assistant'', content = Some [Text ''ok'', Json JNull]\<rparr>"
  using filter_empty_text_content_removes_blank
    [of "\<lparr>role = ''assistant'',
          content = Some [Text [], Text ''ok'', Text '' '', Json JNull]\<rparr>"]
  by (simp add: blank_def py_isspace_def Text_def Json_def empty_item_def)

section \<open>Properties of media stripping\<close>

lemma strip_loop_eq:
  "strip_loop cs acc rm =
     (acc @ filter (\<lambda>c. c_text c \<noteq> None \<or> (c_image c = None \<and> c_json c = None)) cs,
      rm \<or> (\<exists>c \<in> set cs. c_text c = None \<and> (c_image c \<noteq> None \<or> c_json c \<noteq> None)))"
  by (induction cs arbitrary: acc rm) auto

lemma strip_message_nonempty:
  "content m \<noteq> Some [] \<Longrightarrow> content (strip_message m) \<noteq> Some []"
proof (cases "content m")
  case None
  then show ?thesis by (simp add: strip_message_def)
next
  case (Some cs)
  assume "content m \<noteq> Some []"
  with Some obtain c cs' where cs: "cs = c # cs'" by (cases cs) auto
  show ?thesis
  proof (cases "filter (\<lambda>c. c_text c \<noteq> None \<or> (c_image c = None \<and> c_json c = None)) cs = []")
    case False
    with Some show ?thesis by (simp add: strip_message_def strip_loop_eq)
  next
    case True
    then have "\<forall>x \<in> set cs. c_text x = None \<and> (c_image x \<noteq> None \<or> c_json x \<noteq> None)"
      by (auto simp: filter_empty_conv)
    with cs have "\<exists>x \<in> set cs. c_text x = None \<and> (c_image x \<noteq> None \<or> c_json x \<noteq> None)"
      by auto
    with Some True show ?thesis by (simp add: strip_message_def strip_loop_eq)
  qed
qed

lemma strip_message_empty:
  "content m = Some [] \<Longrightarrow> strip_message m = m"
  by (simp add: strip_message_def)

lemma length_remove_media [simp]:
  "length (remove_media_except_last_turn ms) = length ms"
  by (simp add: remove_media_except_last_turn_def)

lemma remove_media_nth:
  "i < length ms \<Longrightarrow>
     remove_media_except_last_turn ms ! i =
       (if length ms < 2 \<or> skip_last_turn ms i then ms ! i else strip_message (ms ! i))"
  by (simp add: remove_media_except_last_turn_def)

text \<open>
  C2, as stated, fails: a turn whose content is already empty in the input is passed
  through, because the placeholder is added only when media was removed.
\<close>

theorem remove_media_counterexample:
  "get_content
     (remove_media_except_last_turn
        [\<lparr>role = ''user'', content = Some [Text ''go'']\<rparr>,
         \<lparr>role = ''assistant'', content = Some []\<rparr>,
         \<lparr>role = ''user'', content = Some [Text ''next'']\<rparr>,
         \<lparr>role = ''assistant'', content = Some [Text ''done'']\<rparr>] ! 1) = []"
  by (simp add: remove_media_except_last_turn_def skip_last_turn_def last_user_index_def
      strip_message_def get_content_def upt_rec numeral_eq_Suc)

text \<open>
  C2 (amended): the stage keeps the number of turns and never turns a turn with
  non-empty content into a turn with empty content: whenever removing image and
  structured items empties a turn's content, the single placeholder text item is
  substituted. A turn whose content is already empty in the input is passed through as
  it is, with empty content.
\<close>

theorem remove_media_keeps_nonempty:
  "length (remove_media_except_last_turn ms) = length ms \<and>
   (\<forall>i < length ms. content (ms ! i) \<noteq> Some [] \<longrightarrow>
        content (remove_media_except_last_turn ms ! i) \<noteq> Some []) \<and>
   (\<forall>i < length ms. \<forall>cs. content (ms ! i) = Some cs \<and> cs \<noteq> [] \<and> 2 \<le> length ms \<and>
        \<not> skip_last_turn ms i \<and>
        (\<forall>c \<in> set cs. c_text c = None \<and> (c_image c \<noteq> None \<or> c_json c \<noteq> None)) \<longrightarrow>
        content (remove_media_except_last_turn ms ! i) = Some [placeholder]) \<and>
   (\<forall>i < length ms. content (ms ! i) = Some [] \<longrightarrow>
        remove_media_except_last_turn ms ! i = ms ! i \<and>
        content (remove_media_except_last_turn ms ! i) = Some [])"
proof (intro conjI allI impI)
  show "length (remove_media_except_last_turn ms) = length ms" by simp
next
  fix i assume i: "i < length ms" and e: "content (ms ! i) = Some []"
  then show same: "remove_media_except_last_turn ms ! i = ms ! i"
    by (simp add: remove_media_nth strip_message_empty)
  show "content (remove_media_except_last_turn ms ! i) = Some []"
    unfolding same by (rule e)
next
  fix i assume "i < length ms" "content (ms ! i) \<noteq> Some []"
  then show "content (remove_media_except_last_turn ms ! i) \<noteq> Some []"
    by (simp add: remove_media_nth strip_message_nonempty)
next
  fix i cs
  assume i: "i < length ms"
    and h: "content (ms ! i) = Some cs \<and> cs \<noteq> [] \<and> 2 \<le> length ms \<and>
        \<not> skip_last_turn ms i \<and>
        (\<forall>c \<in> set cs. c_text c = None \<and> (c_image c \<noteq> None \<or> c_json c \<noteq> None))"
  then have all: "\<forall>c \<in> set cs. c_text c = None \<and> (c_image c \<noteq> None \<or> c_json c \<noteq> None)"
    and ne: "cs \<noteq> []" by simp_all
  from all have f: "filter (\<lambda>c. c_text c \<noteq> None \<or> (c_image c = None \<and> c_json c = None)) cs = []"
    by (auto simp: filter_empty_conv)
  from ne obtain c where "c \<in> set cs" by (cases cs) auto
  with all have ex: "\<exists>c \<in> set cs. c_text c = None \<and> (c_image c \<noteq> None \<or> c_json c \<noteq> None)"
    by blast
  from i h f ex show "content (remove_media_except_last_turn ms ! i) = Some [placeholder]"
    by (simp add: remove_media_nth strip_message_def strip_loop_eq)
qed

theorem remove_media_keeps_nonempty_witness:
  "content
     (remove_media_except_last_turn
        [\<lparr>role = ''user'', content = Some [Text ''go'']\<rparr>,
         \<lparr>role = ''assistant'', content = Some [Json JNull]\<rparr>,
         \<lparr>role = ''user'', content = Some []\<rparr>,
         \<lparr>role = ''assistant'', content = Some [Text ''more'']\<rparr>,
         \<lparr>role = ''user'', content = Some [Text ''next'']\<rparr>,
         \<lparr>role = ''assistant'', content = Some [Text ''done'']\<rparr>] ! 1) = Some [placeholder] \<and>
   content
     (remove_media_except_last_turn
        [\<lparr>role = ''user'', content = Some [Text ''go'']\<rparr>,
         \<lparr>role = ''assistant'', content = Some [Json JNull]\<rparr>,
         \<lparr>role = ''user'', content = Some []\<rparr>,
         \<lparr>role = ''assistant'', content = Some [Text ''more'']\<rparr>,
         \<lparr>role = ''user'', content = Some [Text ''next'']\<rparr>,
         \<lparr>role = ''assistant'', content = Some [Text ''done'']\<rparr>] ! 2) = Some []"
  using remove_media_keeps_nonempty
    [of "[\<lparr>role = ''user'', content = Some [Text ''go'']\<rparr>,
         \<lparr>role = ''assistant'', content = Some [Json JNull]\<rparr>,
         \<lparr>role = ''user'', content = Some []\<rparr>,
         \<lparr>role = ''assistant'', content = Some [Text ''more'']\<rparr>,
         \<lparr>role = ''user'', content = Some [Text ''next'']\<rparr>,
         \<lparr>role = ''assistant'', content = Some [Text ''done'']\<rparr>]"]
  by (simp add: skip_last_turn_def last_user_index_def numeral_eq_Suc Json_def empty_item_def)

section \<open>Properties of summarization\<close>

lemma count_loop_eq:
  "count_loop ms u r = (u + tool_use_count ms, r + tool_result_count ms)"
  by (induction ms arbitrary: u r) (auto simp: tool_use_count_def tool_result_count_def)

lemma summarize_cases:
  "summarize_conversation c ms =
     (if length ms \<le> KEEP_LAST_TURNS * 2 + 1 \<or> to_summarize_of ms = [] then ms
      else case c SUMMARY_MODEL_ID (summarization_request ms) of
             Inl e \<Rightarrow> ms
           | Inr r \<Rightarrow> if tool_pairing (assemble ms r) then assemble ms r else ms)"
  by (auto simp: summarize_conversation_def count_loop_eq tool_pairing_def Let_def split: sum.splits)

text \<open>
  C1: for every message list that satisfies the tool-pairing invariant, the result of
  \<^verbatim>\<open>summarize_conversation\<close> satisfies the invariant or equals the input; when the
  summarization call raises, and when the counts of the reassembled list do not match,
  the input is returned unchanged.
\<close>

theorem summarize_conversation_pairing:
  "(tool_pairing ms \<longrightarrow>
      tool_pairing (summarize_conversation c ms) \<or> summarize_conversation c ms = ms) \<and>
   (c SUMMARY_MODEL_ID (summarization_request ms) = Inl e \<longrightarrow>
      summarize_conversation c ms = ms) \<and>
   (c SUMMARY_MODEL_ID (summarization_request ms) = Inr r \<and> \<not> tool_pairing (assemble ms r) \<longrightarrow>
      summarize_conversation c ms = ms)"
  by (auto simp: summarize_cases split: sum.splits)

lemma collect_last_inv:
  "k \<le> length pm \<Longrightarrow> lm = drop k pm \<Longrightarrow> mc = length pm - k \<Longrightarrow>
   tc = length (filter (turn_boundary pm) [k ..< length pm]) \<Longrightarrow> tc < KEEP_LAST_TURNS \<Longrightarrow>
   collect_last pm k lm mc tc = (L, M, T) \<Longrightarrow>
     M \<le> length pm \<and> L = drop (length pm - M) pm \<and>
     T = length (filter (turn_boundary pm) [length pm - M ..< length pm]) \<and>
     (T \<ge> KEEP_LAST_TURNS \<longrightarrow> T = KEEP_LAST_TURNS \<and> turn_boundary pm (length pm - M)) \<and>
     (T < KEEP_LAST_TURNS \<longrightarrow> M = length pm)"
proof (induction k arbitrary: lm mc tc)
  case 0
  then show ?case by auto
next
  case (Suc k)
  have k: "k < length pm" using Suc.prems(1) by simp
  have d: "drop k pm = pm ! k # drop (Suc k) pm" using k by (simp add: Cons_nth_drop_Suc)
  have u: "[k ..< length pm] = k # [Suc k ..< length pm]" using k by (simp add: upt_conv_Cons)
  let ?tc' = "if turn_boundary pm k then tc + 1 else tc"
  have tc': "?tc' = length (filter (turn_boundary pm) [k ..< length pm])"
    using Suc.prems(4) u by simp
  show ?case
  proof (cases "?tc' \<ge> KEEP_LAST_TURNS")
    case True
    then have res: "(L, M, T) = (pm ! k # lm, mc + 1, ?tc')"
      using Suc.prems(6) by (simp add: Let_def)
    have M: "M = length pm - k" using res Suc.prems(3) k by simp
    have tb: "turn_boundary pm k" using True Suc.prems(5) by (auto split: if_splits)
    have T: "T = KEEP_LAST_TURNS" using res True Suc.prems(5) by (auto split: if_splits)
    have nk: "length pm - M = k" using M k by simp
    have L: "L = drop k pm" using res d Suc.prems(2) by simp
    have T2: "T = length (filter (turn_boundary pm) [k ..< length pm])" using res tc' by simp
    show ?thesis
    proof (intro conjI impI)
      show "M \<le> length pm" using M by simp
      show "L = drop (length pm - M) pm" using L nk by simp
      show "T = length (filter (turn_boundary pm) [length pm - M ..< length pm])"
        using T2 nk by simp
      show "T = KEEP_LAST_TURNS" by (rule T)
      show "turn_boundary pm (length pm - M)" using tb nk by simp
      show "M = length pm" if "T < KEEP_LAST_TURNS" using that T by simp
    qed
  next
    case False
    then have run: "collect_last pm k (pm ! k # lm) (mc + 1) ?tc' = (L, M, T)"
      using Suc.prems(6) by (simp add: Let_def)
    have lm': "pm ! k # lm = drop k pm" using d Suc.prems(2) by simp
    have mc': "mc + 1 = length pm - k" using Suc.prems(3) k by simp
    have lt: "?tc' < KEEP_LAST_TURNS" using False by simp
    have le: "k \<le> length pm" using k by simp
    show ?thesis by (rule Suc.IH[OF le lm' mc' tc' lt run])
  qed
qed

lemma collect_last_top:
  "message_count_of pm \<le> length pm \<and>
   last_messages_of pm = drop (length pm - message_count_of pm) pm \<and>
   (message_count_of pm < length pm \<longrightarrow>
      turn_boundary pm (length pm - message_count_of pm) \<and>
      length (filter (turn_boundary pm) [length pm - message_count_of pm ..< length pm])
        = KEEP_LAST_TURNS)"
proof -
  obtain L M T where r: "collect_last pm (length pm) [] 0 0 = (L, M, T)"
    by (cases "collect_last pm (length pm) [] 0 0") auto
  have K: "(0::nat) < KEEP_LAST_TURNS" by (simp add: KEEP_LAST_TURNS_def)
  have inv: "M \<le> length pm \<and> L = drop (length pm - M) pm \<and>
     T = length (filter (turn_boundary pm) [length pm - M ..< length pm]) \<and>
     (T \<ge> KEEP_LAST_TURNS \<longrightarrow> T = KEEP_LAST_TURNS \<and> turn_boundary pm (length pm - M)) \<and>
     (T < KEEP_LAST_TURNS \<longrightarrow> M = length pm)"
    by (rule collect_last_inv[of "length pm" pm "[]" 0 0 L M T]) (use r K in simp_all)
  have M: "message_count_of pm = M" and L: "last_messages_of pm = L"
    using r by (simp_all add: message_count_of_def last_messages_of_def)
  show ?thesis unfolding M L using inv by (metis linorder_not_less nat_neq_iff)
qed

lemma to_summarize_nonempty_iff:
  "to_summarize_of pm \<noteq> [] \<longleftrightarrow> 2 \<le> length pm - message_count_of pm"
  by (auto simp: to_summarize_of_def)

lemma last_to_summarize:
  "to_summarize_of pm \<noteq> [] \<Longrightarrow>
     last (to_summarize_of pm) = pm ! (length pm - message_count_of pm - 1)"
proof -
  assume ne: "to_summarize_of pm \<noteq> []"
  then have n: "2 \<le> length pm - message_count_of pm" by (simp add: to_summarize_nonempty_iff)
  let ?n = "length pm - message_count_of pm"
  have "last (to_summarize_of pm) = last (take ?n pm)"
    using ne by (simp add: to_summarize_of_def last_drop)
  also have "\<dots> = pm ! (?n - 1)"
  proof -
    have "take ?n pm \<noteq> []" using n by auto
    then have "last (take ?n pm) = take ?n pm ! (length (take ?n pm) - 1)"
      by (rule last_conv_nth)
    also have "length (take ?n pm) = ?n" by simp
    also have "take ?n pm ! (?n - 1) = pm ! (?n - 1)" using n by simp
    finally show ?thesis .
  qed
  finally show ?thesis .
qed

lemmas demo_eval =
  message_count_of_def last_messages_of_def to_summarize_of_def KEEP_LAST_TURNS_def
  turn_boundary_def tool_use_content_def has_toolUse_def has_toolResult_def get_content_def
  assemble_def summary_message_of_def summary_text_of_def tool_pairing_def tool_use_count_def
  tool_result_count_def Text_def ToolUse_def ToolResult_def empty_item_def Let_def

lemma demo_count: "message_count_of demo_transcript = 3"
  by (simp add: demo_transcript_def demo_eval)

lemma demo_assemble:
  "assemble demo_transcript (Some \<lparr>role = ''assistant'', content = Some [Text ''S'']\<rparr>) =
     [demo_transcript ! 0,
      \<lparr>role = ''assistant'',
       content = Some [Text ''[CONVERSATION SUMMARY: S]'',
                       ToolUse \<lparr>tu_toolUseId = Some ''t2'', tu_name = ''click'', tu_input = None\<rparr>]\<rparr>,
      demo_transcript ! 4, demo_transcript ! 5, demo_transcript ! 6]"
  by (simp add: demo_transcript_def demo_eval)

lemma demo_pairing:
  "tool_pairing (assemble demo_transcript (Some \<lparr>role = ''assistant'', content = Some [Text ''S'']\<rparr>))"
  unfolding demo_assemble by (simp add: demo_transcript_def demo_eval)

lemma unbalanced_pairing: "tool_pairing unbalanced_transcript"
  by (simp add: unbalanced_transcript_def demo_eval)

lemma unbalanced_assemble_bad:
  "\<not> tool_pairing (assemble unbalanced_transcript (Some \<lparr>role = ''assistant'', content = Some [Text ''S'']\<rparr>))"
  by (simp add: unbalanced_transcript_def demo_eval)

lemma demo_client_eq: "demo_client a b = Inr demo_summary"
  by (simp add: demo_client_def demo_summary_def)

theorem summarize_conversation_pairing_witness:
  "tool_pairing demo_transcript \<and>
   tool_pairing (summarize_conversation demo_client demo_transcript) \<and>
   summarize_conversation failing_client demo_transcript = demo_transcript \<and>
   tool_pairing unbalanced_transcript \<and>
   \<not> tool_pairing (assemble unbalanced_transcript demo_summary) \<and>
   summarize_conversation demo_client unbalanced_transcript = unbalanced_transcript"
proof -
  have p: "tool_pairing demo_transcript"
    by (simp add: demo_transcript_def demo_eval)
  have len: "\<not> length demo_transcript \<le> KEEP_LAST_TURNS * 2 + 1"
    by (simp add: demo_transcript_def KEEP_LAST_TURNS_def)
  have ne: "to_summarize_of demo_transcript \<noteq> []"
    by (simp add: to_summarize_nonempty_iff demo_count) (simp add: demo_transcript_def)
  have ok: "summarize_conversation demo_client demo_transcript = assemble demo_transcript demo_summary"
    using len ne demo_pairing by (simp add: summarize_cases demo_client_eq demo_summary_def)
  have neq: "assemble demo_transcript demo_summary \<noteq> demo_transcript"
    unfolding demo_summary_def demo_assemble by (simp add: demo_transcript_def)
  have bad: "\<not> tool_pairing (assemble unbalanced_transcript demo_summary)"
    unfolding demo_summary_def by (rule unbalanced_assemble_bad)
  from summarize_conversation_pairing[of demo_transcript demo_client "[]" demo_summary] p ok neq
  have a: "tool_pairing (summarize_conversation demo_client demo_transcript)" by simp
  from summarize_conversation_pairing[of demo_transcript failing_client "''ThrottlingException''" demo_summary]
  have b: "summarize_conversation failing_client demo_transcript = demo_transcript"
    by (simp add: failing_client_def)
  from summarize_conversation_pairing[of unbalanced_transcript demo_client "[]" demo_summary] bad
  have c: "summarize_conversation demo_client unbalanced_transcript = unbalanced_transcript"
    by (simp add: demo_client_eq)
  from p a b c bad unbalanced_pairing show ?thesis by simp
qed

text \<open>
  C5, as stated, fails: on a transcript of seven alternating turns that ends in a user
  turn, the kept tail has three turns (user, assistant, user), not the last two complete
  pairs.
\<close>

theorem summarize_kept_tail_counterexample:
  "drop 2 (summarize_conversation demo_client demo_transcript)
     = [demo_transcript ! 4, demo_transcript ! 5, demo_transcript ! 6] \<and>
   spec_last_turn_pairs KEEP_LAST_TURNS demo_transcript
     = [demo_transcript ! 3, demo_transcript ! 4, demo_transcript ! 5, demo_transcript ! 6] \<and>
   drop 2 (summarize_conversation demo_client demo_transcript)
     \<noteq> spec_last_turn_pairs KEEP_LAST_TURNS demo_transcript"
proof -
  have len: "\<not> length demo_transcript \<le> KEEP_LAST_TURNS * 2 + 1"
    by (simp add: demo_transcript_def KEEP_LAST_TURNS_def)
  have ne: "to_summarize_of demo_transcript \<noteq> []"
    by (simp add: to_summarize_nonempty_iff demo_count) (simp add: demo_transcript_def)
  have ok: "summarize_conversation demo_client demo_transcript = assemble demo_transcript demo_summary"
    using len ne demo_pairing by (simp add: summarize_cases demo_client_eq demo_summary_def)
  have 1: "drop 2 (summarize_conversation demo_client demo_transcript)
     = [demo_transcript ! 4, demo_transcript ! 5, demo_transcript ! 6]"
    unfolding ok demo_summary_def demo_assemble by simp
  have 2: "spec_last_turn_pairs KEEP_LAST_TURNS demo_transcript
     = [demo_transcript ! 3, demo_transcript ! 4, demo_transcript ! 5, demo_transcript ! 6]"
    by (simp add: spec_last_turn_pairs_def KEEP_LAST_TURNS_def demo_transcript_def)
  show ?thesis unfolding 1 2 by simp
qed

text \<open>
  C5 (amended): when summarization succeeds on a list with a non-empty middle span, the
  result is the first message, one synthesized assistant summary turn, and then the
  shortest suffix of the input that contains \<open>K = 2\<close> user turns each directly
  preceded by an assistant turn; this suffix starts at such a user turn, at an index of
  at least 2, and the middle span is what lies between the first message and it. When
  the list has at most \<open>2 * K + 1\<close> messages or the middle span is empty, the input is
  returned unchanged.
\<close>

theorem summarize_conversation_shape:
  "(KEEP_LAST_TURNS * 2 + 1 < length ms \<and> to_summarize_of ms \<noteq> [] \<and>
    c SUMMARY_MODEL_ID (summarization_request ms) = Inr r \<and> tool_pairing (assemble ms r) \<longrightarrow>
      summarize_conversation c ms
        = ms ! 0 # summary_message_of ms r # drop (length ms - message_count_of ms) ms \<and>
      role (summary_message_of ms r) = ''assistant'' \<and>
      to_summarize_of ms = drop 1 (take (length ms - message_count_of ms) ms) \<and>
      2 \<le> length ms - message_count_of ms \<and> length ms - message_count_of ms < length ms \<and>
      turn_boundary ms (length ms - message_count_of ms) \<and>
      length (filter (turn_boundary ms) [length ms - message_count_of ms ..< length ms])
        = KEEP_LAST_TURNS) \<and>
   (length ms \<le> KEEP_LAST_TURNS * 2 + 1 \<or> to_summarize_of ms = [] \<longrightarrow>
      summarize_conversation c ms = ms)"
proof (intro conjI impI)
  assume "length ms \<le> KEEP_LAST_TURNS * 2 + 1 \<or> to_summarize_of ms = []"
  then show "summarize_conversation c ms = ms" by (auto simp: summarize_cases)
next
  assume h: "KEEP_LAST_TURNS * 2 + 1 < length ms \<and> to_summarize_of ms \<noteq> [] \<and>
    c SUMMARY_MODEL_ID (summarization_request ms) = Inr r \<and> tool_pairing (assemble ms r)"
  let ?n = "length ms - message_count_of ms"
  have n2: "2 \<le> ?n" using h by (simp add: to_summarize_nonempty_iff)
  then have lt: "message_count_of ms < length ms" by simp
  have top: "message_count_of ms \<le> length ms \<and> last_messages_of ms = drop ?n ms \<and>
     turn_boundary ms ?n \<and> length (filter (turn_boundary ms) [?n ..< length ms]) = KEEP_LAST_TURNS"
    using collect_last_top[of ms] lt by simp
  have mc0: "0 < message_count_of ms"
  proof (rule ccontr)
    assume "\<not> 0 < message_count_of ms"
    then have "[?n ..< length ms] = []" by simp
    with top show False by (simp add: KEEP_LAST_TURNS_def)
  qed
  show "summarize_conversation c ms = ms ! 0 # summary_message_of ms r # drop ?n ms"
    using h top by (simp add: summarize_cases assemble_def)
  show "role (summary_message_of ms r) = ''assistant''" by (simp add: summary_message_of_def)
  show "to_summarize_of ms = drop 1 (take ?n ms)" by (simp add: to_summarize_of_def)
  show "2 \<le> ?n" by (rule n2)
  show "?n < length ms" using mc0 lt by simp
  show "turn_boundary ms ?n" using top by simp
  show "length (filter (turn_boundary ms) [?n ..< length ms]) = KEEP_LAST_TURNS" using top by simp
qed

theorem summarize_conversation_shape_witness:
  "summarize_conversation demo_client demo_transcript
     = [demo_transcript ! 0, summary_message_of demo_transcript demo_summary,
        demo_transcript ! 4, demo_transcript ! 5, demo_transcript ! 6] \<and>
   summarize_conversation demo_client (take 5 demo_transcript) = take 5 demo_transcript"
proof -
  have len: "KEEP_LAST_TURNS * 2 + 1 < length demo_transcript"
    by (simp add: demo_transcript_def KEEP_LAST_TURNS_def)
  have ne: "to_summarize_of demo_transcript \<noteq> []"
    by (simp add: to_summarize_nonempty_iff demo_count) (simp add: demo_transcript_def)
  have p: "tool_pairing (assemble demo_transcript demo_summary)"
    unfolding demo_summary_def by (rule demo_pairing)
  have d: "drop (length demo_transcript - message_count_of demo_transcript) demo_transcript
      = [demo_transcript ! 4, demo_transcript ! 5, demo_transcript ! 6]"
    unfolding demo_count by (simp add: demo_transcript_def)
  have short: "length (take 5 demo_transcript) \<le> KEEP_LAST_TURNS * 2 + 1"
    by (simp add: KEEP_LAST_TURNS_def)
  from summarize_conversation_shape[of demo_transcript demo_client demo_summary] len ne p d
  have 1: "summarize_conversation demo_client demo_transcript
     = [demo_transcript ! 0, summary_message_of demo_transcript demo_summary,
        demo_transcript ! 4, demo_transcript ! 5, demo_transcript ! 6]"
    by (simp add: demo_client_eq)
  from summarize_conversation_shape[of "take 5 demo_transcript" demo_client demo_summary] short
  have 2: "summarize_conversation demo_client (take 5 demo_transcript) = take 5 demo_transcript"
    by simp
  from 1 2 show ?thesis by simp
qed

text \<open>
  C6: if the last turn of the span being summarized is an assistant turn, its toolUse
  items are carried, unchanged and in order, into the content of the synthesized summary
  turn, right after the summary text item; that turn is the one directly before the kept
  tail, which follows the summary turn in the result.
\<close>

theorem summarize_carries_tool_use:
  "KEEP_LAST_TURNS * 2 + 1 < length ms \<Longrightarrow> to_summarize_of ms \<noteq> [] \<Longrightarrow>
   role (last (to_summarize_of ms)) = ''assistant'' \<Longrightarrow>
   c SUMMARY_MODEL_ID (summarization_request ms) = Inr r \<Longrightarrow>
   tool_pairing (assemble ms r) \<Longrightarrow>
     content (summarize_conversation c ms ! 1)
       = Some (Text (''[CONVERSATION SUMMARY: '' @ summary_text_of r @ '']'')
               # filter has_toolUse (get_content (last (to_summarize_of ms)))) \<and>
     role (summarize_conversation c ms ! 1) = ''assistant'' \<and>
     last (to_summarize_of ms) = ms ! (length ms - message_count_of ms - 1) \<and>
     drop 2 (summarize_conversation c ms) = drop (length ms - message_count_of ms) ms"
proof -
  assume len: "KEEP_LAST_TURNS * 2 + 1 < length ms" and ne: "to_summarize_of ms \<noteq> []"
    and ro: "role (last (to_summarize_of ms)) = ''assistant''"
    and cl: "c SUMMARY_MODEL_ID (summarization_request ms) = Inr r"
    and tp: "tool_pairing (assemble ms r)"
  have s: "summarize_conversation c ms = assemble ms r"
    using len ne cl tp by (simp add: summarize_cases)
  have lt: "message_count_of ms < length ms"
    using ne by (simp add: to_summarize_nonempty_iff)
  have lm: "last_messages_of ms = drop (length ms - message_count_of ms) ms"
    using collect_last_top[of ms] by simp
  show ?thesis
    unfolding s using ne ro lm
    by (simp add: assemble_def summary_message_of_def tool_use_content_def last_to_summarize)
qed

theorem summarize_carries_tool_use_witness:
  "content (summarize_conversation demo_client demo_transcript ! 1)
     = Some [Text ''[CONVERSATION SUMMARY: S]'',
             ToolUse \<lparr>tu_toolUseId = Some ''t2'', tu_name = ''click'', tu_input = None\<rparr>]"
proof -
  have len: "KEEP_LAST_TURNS * 2 + 1 < length demo_transcript"
    by (simp add: demo_transcript_def KEEP_LAST_TURNS_def)
  have ne: "to_summarize_of demo_transcript \<noteq> []"
    by (simp add: to_summarize_nonempty_iff demo_count) (simp add: demo_transcript_def)
  have p: "tool_pairing (assemble demo_transcript demo_summary)"
    unfolding demo_summary_def by (rule demo_pairing)
  have cl: "demo_client SUMMARY_MODEL_ID (summarization_request demo_transcript) = Inr demo_summary"
    by (rule demo_client_eq)
  have la: "last (to_summarize_of demo_transcript) = demo_transcript ! 3"
    using last_to_summarize[OF ne] by (simp add: demo_count) (simp add: demo_transcript_def)
  have ro: "role (last (to_summarize_of demo_transcript)) = ''assistant''"
    unfolding la by (simp add: demo_transcript_def)
  from summarize_carries_tool_use[of demo_transcript demo_client demo_summary, OF len ne ro cl p] show ?thesis
    unfolding la
    by (simp add: demo_transcript_def demo_summary_def summary_text_of_def get_content_def
        has_toolUse_def Text_def ToolUse_def empty_item_def)
qed

section \<open>Properties of tool dispatch and of the server tools\<close>

lemma process_tool_request_cases:
  "process_tool_request dec session tool_name tool_id tool_input st =
     (case try_tool_request dec session tool_name tool_id tool_input st of
        (Inr r, st') \<Rightarrow> (r, st')
      | (Inl e, st') \<Rightarrow>
          (ToolResult \<lparr>tr_toolUseId = tool_id,
                       tr_content = [JsonBlock (JObj [(''error'', JStr e)])]\<rparr>, st'))"
  by (simp add: process_tool_request_def)

lemma try_tool_request_id:
  "try_tool_request dec session tool_name tool_id tool_input st = (Inr r, st') \<Longrightarrow>
     \<exists>blocks. r = ToolResult \<lparr>tr_toolUseId = tool_id, tr_content = blocks\<rparr>"
  by (auto simp: try_tool_request_def split: prod.splits sum.splits)

text \<open>
  C4, as stated, fails for an unknown tool name: the session of the MCP library answers
  such a call with a result (\<^verbatim>\<open>isError\<close> set, one text item with the message) and does
  not raise, and \<^verbatim>\<open>process_tool_request\<close> converts that result like any other. The
  content of the tool result is \<open>{text: message}\<close>, not \<open>{error: message}\<close>.
\<close>

theorem process_tool_request_counterexample:
  "fst (process_tool_request demo_decoder demo_session ''unknown_tool'' (Some ''t9'') (JObj [])
          (0, []))
     = ToolResult \<lparr>tr_toolUseId = Some ''t9'',
         tr_content = [JsonBlock (JObj [(''text'', JStr ''Unknown tool: unknown_tool'')])]\<rparr> \<and>
   fst (process_tool_request demo_decoder demo_session ''unknown_tool'' (Some ''t9'') (JObj [])
          (0, []))
     \<noteq> ToolResult \<lparr>tr_toolUseId = Some ''t9'',
         tr_content = [JsonBlock (JObj [(''error'', JStr ''Unknown tool: unknown_tool'')])]\<rparr>"
  by (simp add: process_tool_request_def try_tool_request_def demo_session_def ToolResult_def
      empty_item_def)

text \<open>
  C4 (amended): for every tool name, request id and argument object,
  \<^verbatim>\<open>process_tool_request\<close> returns a tool result that carries the request id (there is
  no error alternative in its result). When the body of its \<^verbatim>\<open>try\<close> block raises, and in
  particular when the call of the session raises, the content of the tool result is the
  single structured item \<open>{error: message}\<close>. A failure that the session reports as a
  result whose content is one text item, as it does for an unknown tool name, is
  converted like every result: the content is the single structured item
  \<open>{text: message}\<close>, whatever the \<^verbatim>\<open>isError\<close> flag says.
\<close>

theorem process_tool_request_total:
  "(\<exists>blocks st'. process_tool_request dec session tool_name tool_id tool_input st
        = (ToolResult \<lparr>tr_toolUseId = tool_id, tr_content = blocks\<rparr>, st')) \<and>
   (\<forall>e st'. try_tool_request dec session tool_name tool_id tool_input st = (Inl e, st') \<longrightarrow>
      process_tool_request dec session tool_name tool_id tool_input st
        = (ToolResult \<lparr>tr_toolUseId = tool_id,
                        tr_content = [JsonBlock (JObj [(''error'', JStr e)])]\<rparr>, st')) \<and>
   (\<forall>e srv'. session (fst st) tool_name tool_input = (Inl e, srv') \<longrightarrow>
      process_tool_request dec session tool_name tool_id tool_input st
        = (ToolResult \<lparr>tr_toolUseId = tool_id,
                        tr_content = [JsonBlock (JObj [(''error'', JStr e)])]\<rparr>,
           (srv', snd st))) \<and>
   (\<forall>res srv' msg. session (fst st) tool_name tool_input = (Inr res, srv') \<and>
        ctr_content res = Some [TextContent msg] \<longrightarrow>
      process_tool_request dec session tool_name tool_id tool_input st
        = (ToolResult \<lparr>tr_toolUseId = tool_id,
                        tr_content = [JsonBlock (JObj [(''text'', JStr msg)])]\<rparr>,
           (srv', snd st)))"
proof (intro conjI allI impI)
  obtain o' st' where t: "try_tool_request dec session tool_name tool_id tool_input st = (o', st')"
    by (cases "try_tool_request dec session tool_name tool_id tool_input st") auto
  show "\<exists>blocks st'. process_tool_request dec session tool_name tool_id tool_input st
        = (ToolResult \<lparr>tr_toolUseId = tool_id, tr_content = blocks\<rparr>, st')"
  proof (cases o')
    case (Inl e)
    with t show ?thesis by (auto simp: process_tool_request_def)
  next
    case (Inr r)
    with t try_tool_request_id[of dec session tool_name tool_id tool_input st r st']
    show ?thesis by (auto simp: process_tool_request_def)
  qed
next
  fix e st'
  assume "try_tool_request dec session tool_name tool_id tool_input st = (Inl e, st')"
  then show "process_tool_request dec session tool_name tool_id tool_input st
        = (ToolResult \<lparr>tr_toolUseId = tool_id,
                        tr_content = [JsonBlock (JObj [(''error'', JStr e)])]\<rparr>, st')"
    by (simp add: process_tool_request_def)
next
  fix e srv'
  assume "session (fst st) tool_name tool_input = (Inl e, srv')"
  then show "process_tool_request dec session tool_name tool_id tool_input st
        = (ToolResult \<lparr>tr_toolUseId = tool_id,
                        tr_content = [JsonBlock (JObj [(''error'', JStr e)])]\<rparr>,
           (srv', snd st))"
    by (cases st) (simp add: process_tool_request_def try_tool_request_def)
next
  fix res srv' msg
  assume "session (fst st) tool_name tool_input = (Inr res, srv') \<and>
        ctr_content res = Some [TextContent msg]"
  then show "process_tool_request dec session tool_name tool_id tool_input st
        = (ToolResult \<lparr>tr_toolUseId = tool_id,
                        tr_content = [JsonBlock (JObj [(''text'', JStr msg)])]\<rparr>,
           (srv', snd st))"
    by (cases st) (simp add: process_tool_request_def try_tool_request_def)
qed

theorem process_tool_request_total_witness:
  "process_tool_request demo_decoder closed_session ''navigate'' (Some ''t8'') (JObj []) (0, [])
     = (ToolResult \<lparr>tr_toolUseId = Some ''t8'',
          tr_content = [JsonBlock (JObj [(''error'', JStr ''Connection closed'')])]\<rparr>,
        (0, [])) \<and>
   process_tool_request demo_decoder demo_session ''unknown_tool'' (Some ''t9'') (JObj []) (0, [])
     = (ToolResult \<lparr>tr_toolUseId = Some ''t9'',
          tr_content = [JsonBlock (JObj [(''text'', JStr ''Unknown tool: unknown_tool'')])]\<rparr>,
        (0, []))"
proof -
  have c: "closed_session (fst (0::nat, []::string list)) ''navigate'' (JObj [])
             = (Inl ''Connection closed'', 0)"
    by (simp add: closed_session_def)
  have s: "demo_session (fst (0::nat, []::string list)) ''unknown_tool'' (JObj [])
             = (Inr \<lparr>ctr_content = Some [TextContent ''Unknown tool: unknown_tool''],
                      ctr_isError = True\<rparr>, 0)"
    by (simp add: demo_session_def)
  from process_tool_request_total[where dec = demo_decoder and session = closed_session
      and tool_name = "''navigate''" and tool_id = "Some ''t8''" and tool_input = "JObj []"
      and st = "(0, [])"] c
  have 1: "process_tool_request demo_decoder closed_session ''navigate'' (Some ''t8'') (JObj [])
        (0, [])
     = (ToolResult \<lparr>tr_toolUseId = Some ''t8'',
          tr_content = [JsonBlock (JObj [(''error'', JStr ''Connection closed'')])]\<rparr>,
        (0, []))"
    by simp
  from process_tool_request_total[where dec = demo_decoder and session = demo_session
      and tool_name = "''unknown_tool''" and tool_id = "Some ''t9''" and tool_input = "JObj []"
      and st = "(0, [])"] s
  have 2: "process_tool_request demo_decoder demo_session ''unknown_tool'' (Some ''t9'') (JObj [])
        (0, [])
     = (ToolResult \<lparr>tr_toolUseId = Some ''t9'',
          tr_content = [JsonBlock (JObj [(''text'', JStr ''Unknown tool: unknown_tool'')])]\<rparr>,
        (0, []))"
    by simp
  from 1 2 show ?thesis by simp
qed

lemma py_endswith_iff: "py_endswith s suffix \<longleftrightarrow> (\<exists>p. s = p @ suffix)"
proof
  assume "py_endswith s suffix"
  then have "s = take (length s - length suffix) s @ suffix"
    by (metis append_take_drop_id py_endswith_def)
  then show "\<exists>p. s = p @ suffix" ..
next
  assume "\<exists>p. s = p @ suffix"
  then show "py_endswith s suffix" by (auto simp: py_endswith_def)
qed

text \<open>
  C7, as stated, fails: when writing the file raises (here a file name in a directory
  that does not exist), \<^verbatim>\<open>write_file\<close> returns the dictionary \<open>{written: False, error}\<close>,
  not a resource reference; and the uri of a resource is the validated url, which for a
  file name with a space is not \<open>artifact://{sessionId}/{filename}\<close>.
\<close>

theorem write_file_counterexample:
  "fst (write_file (session_dir_writer ''sid'') encode_spaces ''sid'' ''notes/r.md'' ''# Title'' [])
     = ReturnDict (JObj [(''written'', JBool False),
                         (''error'', JStr ''No such file or directory'')]) \<and>
   fst (write_file (session_dir_writer ''sid'') encode_spaces ''sid'' ''my file.md'' ''# Title'' [])
     = ReturnResource \<lparr>res_uri = Some ''artifact://sid/my%20file.md'',
                        res_mimeType = Some ''text/markdown'',
                        res_text = Some ''# Title''\<rparr> \<and>
   ''artifact://sid/my%20file.md'' \<noteq> ''artifact://'' @ ''sid'' @ ''/'' @ ''my file.md''"
  by (simp add: write_file_def session_dir_writer_def encode_spaces_def mime_type_of_def
      py_endswith_def)

text \<open>
  C7 (amended): for every file name and content for which writing the file and
  validating the url succeed, \<^verbatim>\<open>write_file\<close> returns a resource reference whose uri is
  the validated form of \<open>artifact://{sessionId}/{filename}\<close> (that string itself where
  validation leaves it as it is) and whose mime type follows from the end of the file
  name (\<open>.md\<close>, \<open>.html\<close>, \<open>.json\<close>, otherwise plain text); when the client receives that
  resource as the result of the call, it appends its uri to \<^verbatim>\<open>artifact_uris\<close>. When
  writing or validating raises, the result is the dictionary
  \<open>{written: False, error: message}\<close>.
\<close>

theorem write_file_resource:
  "(open_write fs (''artefacts/'' @ sid @ ''/'' @ filename) file_content = (Inr u, fs') \<and>
    any_url (''artifact://'' @ sid @ ''/'' @ filename) = Inr uri \<longrightarrow>
      write_file open_write any_url sid filename file_content fs
        = (ReturnResource
             \<lparr>res_uri = Some uri,
              res_mimeType =
                Some (if py_endswith filename ''.md'' then ''text/markdown''
                      else if py_endswith filename ''.html'' then ''text/html''
                      else if py_endswith filename ''.json'' then ''application/json''
                      else ''text/plain''),
              res_text = Some (take 100 file_content)\<rparr>, fs') \<and>
      (uri = ''artifact://'' @ sid @ ''/'' @ filename \<longrightarrow>
         (\<exists>r. fst (write_file open_write any_url sid filename file_content fs) = ReturnResource r \<and>
              res_uri r = Some (''artifact://'' @ sid @ ''/'' @ filename))) \<and>
      (\<forall>r res. fst (write_file open_write any_url sid filename file_content fs) = ReturnResource r \<and>
           session srv ''write_file'' tool_input = (Inr res, srv') \<and>
           ctr_content res = Some [EmbeddedResource r] \<longrightarrow>
           snd (process_tool_request dec session ''write_file'' tool_id tool_input
                  (srv, artifact_uris))
             = (srv', artifact_uris @ [uri]))) \<and>
   (open_write fs (''artefacts/'' @ sid @ ''/'' @ filename) file_content = (Inl e, fs') \<longrightarrow>
      write_file open_write any_url sid filename file_content fs
        = (ReturnDict (JObj [(''written'', JBool False), (''error'', JStr e)]), fs')) \<and>
   (open_write fs (''artefacts/'' @ sid @ ''/'' @ filename) file_content = (Inr u, fs') \<and>
    any_url (''artifact://'' @ sid @ ''/'' @ filename) = Inl e \<longrightarrow>
      write_file open_write any_url sid filename file_content fs
        = (ReturnDict (JObj [(''written'', JBool False), (''error'', JStr e)]), fs'))"
proof (intro conjI impI allI)
  assume "open_write fs (''artefacts/'' @ sid @ ''/'' @ filename) file_content = (Inl e, fs')"
  then show "write_file open_write any_url sid filename file_content fs
        = (ReturnDict (JObj [(''written'', JBool False), (''error'', JStr e)]), fs')"
    by (simp add: write_file_def)
next
  assume "open_write fs (''artefacts/'' @ sid @ ''/'' @ filename) file_content = (Inr u, fs') \<and>
    any_url (''artifact://'' @ sid @ ''/'' @ filename) = Inl e"
  then show "write_file open_write any_url sid filename file_content fs
        = (ReturnDict (JObj [(''written'', JBool False), (''error'', JStr e)]), fs')"
    by (simp add: write_file_def)
next
  assume w: "open_write fs (''artefacts/'' @ sid @ ''/'' @ filename) file_content = (Inr u, fs') \<and>
    any_url (''artifact://'' @ sid @ ''/'' @ filename) = Inr uri"
  then show wf: "write_file open_write any_url sid filename file_content fs
        = (ReturnResource
             \<lparr>res_uri = Some uri,
              res_mimeType =
                Some (if py_endswith filename ''.md'' then ''text/markdown''
                      else if py_endswith filename ''.html'' then ''text/html''
                      else if py_endswith filename ''.json'' then ''application/json''
                      else ''text/plain''),
              res_text = Some (take 100 file_content)\<rparr>, fs')"
    by (simp add: write_file_def mime_type_of_def)
  show "\<exists>r. fst (write_file open_write any_url sid filename file_content fs) = ReturnResource r \<and>
            res_uri r = Some (''artifact://'' @ sid @ ''/'' @ filename)"
    if "uri = ''artifact://'' @ sid @ ''/'' @ filename"
    unfolding wf using that by simp
  fix r res
  assume h: "fst (write_file open_write any_url sid filename file_content fs) = ReturnResource r \<and>
           session srv ''write_file'' tool_input = (Inr res, srv') \<and>
           ctr_content res = Some [EmbeddedResource r]"
  with wf have u: "res_uri r = Some uri" by auto
  from h u show "snd (process_tool_request dec session ''write_file'' tool_id tool_input
                  (srv, artifact_uris))
             = (srv', artifact_uris @ [uri])"
    by (cases "res_text r") (simp_all add: process_tool_request_def try_tool_request_def)
qed

theorem write_file_resource_witness:
  "write_file (session_dir_writer ''sid'') encode_spaces ''sid'' ''r.md'' ''# Title'' []
     = (ReturnResource \<lparr>res_uri = Some ''artifact://sid/r.md'',
                         res_mimeType = Some ''text/markdown'',
                         res_text = Some ''# Title''\<rparr>,
        [(''artefacts/sid/r.md'', ''# Title'')]) \<and>
   snd (process_tool_request demo_decoder demo_session ''write_file'' (Some ''t1'') (JObj [])
          (0, []))
     = (1, [''artifact://sid/r.md''])"
proof -
  have w: "session_dir_writer ''sid'' [] (''artefacts/'' @ ''sid'' @ ''/'' @ ''r.md'') ''# Title''
             = (Inr (), [(''artefacts/sid/r.md'', ''# Title'')])"
    by (simp add: session_dir_writer_def)
  have v: "encode_spaces (''artifact://'' @ ''sid'' @ ''/'' @ ''r.md'') = Inr ''artifact://sid/r.md''"
    by (simp add: encode_spaces_def)
  have e: "py_endswith ''r.md'' ''.md''" by (simp add: py_endswith_def)
  have s: "demo_session 0 ''write_file'' (JObj [])
      = (Inr \<lparr>ctr_content = Some [EmbeddedResource \<lparr>res_uri = Some ''artifact://sid/r.md'',
                         res_mimeType = Some ''text/markdown'',
                         res_text = Some ''# Title''\<rparr>], ctr_isError = False\<rparr>, 1)"
    by (simp add: demo_session_def)
  note t = write_file_resource[where open_write = "session_dir_writer ''sid''" and fs = "[]"
      and sid = "''sid''" and filename = "''r.md''" and file_content = "''# Title''"
      and u = "()" and fs' = "[(''artefacts/sid/r.md'', ''# Title'')]"
      and any_url = encode_spaces and uri = "''artifact://sid/r.md''"
      and session = demo_session and srv = 0 and tool_input = "JObj []" and srv' = 1
      and dec = demo_decoder and tool_id = "Some ''t1''" and artifact_uris = "[]"]
  from t w v e have wf:
    "write_file (session_dir_writer ''sid'') encode_spaces ''sid'' ''r.md'' ''# Title'' []
     = (ReturnResource \<lparr>res_uri = Some ''artifact://sid/r.md'',
                         res_mimeType = Some ''text/markdown'',
                         res_text = Some ''# Title''\<rparr>,
        [(''artefacts/sid/r.md'', ''# Title'')])"
    by simp
  from t w v wf s have tr:
    "snd (process_tool_request demo_decoder demo_session ''write_file'' (Some ''t1'') (JObj [])
          (0, []))
     = (1, [''artifact://sid/r.md''])"
    by simp
  from wf tr show ?thesis by simp
qed




section \<open>Properties of the tool-result turn\<close>

lemma process_tool_request_shape:
  "\<exists>blocks st'. process_tool_request dec session tool_name tool_id tool_input st
        = (ToolResult \<lparr>tr_toolUseId = tool_id, tr_content = blocks\<rparr>, st')"
proof -
  obtain o' st' where t: "try_tool_request dec session tool_name tool_id tool_input st = (o', st')"
    by (cases "try_tool_request dec session tool_name tool_id tool_input st") auto
  show ?thesis
  proof (cases o')
    case (Inl e)
    with t show ?thesis by (auto simp: process_tool_request_def)
  next
    case (Inr r)
    with t try_tool_request_id[of dec session tool_name tool_id tool_input st r st']
    show ?thesis by (auto simp: process_tool_request_def)
  qed
qed

lemma result_ids_append [simp]: "result_ids (xs @ ys) = result_ids xs @ result_ids ys"
  by (simp add: result_ids_def)

lemma result_ids_ToolResult [simp]:
  "result_ids [ToolResult r] = [tr_toolUseId r]"
  by (simp add: result_ids_def ToolResult_def empty_item_def)

lemma is_tool_result_ToolResult [simp]: "is_tool_result (ToolResult r)"
  by (simp add: is_tool_result_def ToolResult_def empty_item_def)

lemma request_ids_Nil [simp]: "request_ids [] = []"
  by (simp add: request_ids_def)

lemma request_ids_Cons:
  "request_ids (c # cs) =
     (case c_toolUse c of Some u \<Rightarrow> [tu_toolUseId u] | None \<Rightarrow> []) @ request_ids cs"
  by (simp add: request_ids_def)

lemma dispatch_loop_shape:
  "dispatch_loop dec jl session cs tc st = Inr (tc', st') \<Longrightarrow>
     \<exists>rs. tc' = tc @ rs \<and> list_all is_tool_result rs \<and> result_ids rs = request_ids cs"
proof (induction cs arbitrary: tc st)
  case Nil
  then show ?case by (simp add: request_ids_def result_ids_def)
next
  case (Cons c cs)
  show ?case
  proof (cases "c_toolUse c")
    case None
    with Cons.prems have "dispatch_loop dec jl session cs tc st = Inr (tc', st')" by simp
    from Cons.IH[OF this] None show ?thesis by (simp add: request_ids_Cons)
  next
    case (Some tool)
    from Cons.prems Some obtain tool_input where
      pi: "parse_tool_input jl (tu_input tool) = Inr tool_input"
      by (cases "parse_tool_input jl (tu_input tool)") auto
    obtain blocks st1 where
      p: "process_tool_request dec session (tu_name tool) (tu_toolUseId tool) tool_input st
            = (ToolResult \<lparr>tr_toolUseId = tu_toolUseId tool, tr_content = blocks\<rparr>, st1)"
      using process_tool_request_shape by blast
    let ?r = "ToolResult \<lparr>tr_toolUseId = tu_toolUseId tool, tr_content = blocks\<rparr>"
    from Cons.prems Some pi p
    have "dispatch_loop dec jl session cs (tc @ [?r]) st1 = Inr (tc', st')" by simp
    from Cons.IH[OF this] obtain rs where
      rs: "tc' = (tc @ [?r]) @ rs" "list_all is_tool_result rs" "result_ids rs = request_ids cs"
      by blast
    have "tc' = tc @ (?r # rs)" using rs(1) by simp
    moreover have "list_all is_tool_result (?r # rs)" using rs(2) by simp
    moreover have "result_ids (?r # rs) = request_ids (c # cs)"
    proof -
      have "result_ids (?r # rs) = result_ids ([?r] @ rs)" by simp
      also have "\<dots> = [tu_toolUseId tool] @ result_ids rs"
        unfolding result_ids_append by simp
      finally show ?thesis using rs(3) Some by (simp add: request_ids_Cons)
    qed
    ultimately show ?thesis by blast
  qed
qed

text \<open>
  The loop of \<^verbatim>\<open>11-mcp-client.py\<close>: whenever it builds the user turn, the turn holds one
  tool result per toolUse request of the assistant turn, in the order of the requests and
  with their ids, followed by one text item, which is no tool result.
\<close>

lemma run_client_turn_shape:
  "run_client_turn dec jl py_str session output_message st = Inr (m, st') \<Longrightarrow>
     role m = ''user'' \<and>
     (\<exists>rs t. content m = Some (rs @ [Text t]) \<and>
             list_all is_tool_result rs \<and>
             result_ids rs = request_ids (get_content output_message) \<and>
             length rs = length (filter has_toolUse (get_content output_message)) \<and>
             c_toolResult (Text t) = None)"
proof -
  assume a: "run_client_turn dec jl py_str session output_message st = Inr (m, st')"
  then obtain tool_content st1 where
    d: "dispatch_loop dec jl session (get_content output_message) [] st = Inr (tool_content, st1)"
    by (cases "dispatch_loop dec jl session (get_content output_message) [] st")
       (auto simp: run_client_turn_def)
  from dispatch_loop_shape[OF d] have
    rs: "list_all is_tool_result tool_content"
        "result_ids tool_content = request_ids (get_content output_message)"
    by auto
  have len_req: "\<And>cs. length (request_ids cs) = length (filter has_toolUse cs)"
  proof -
    fix cs show "length (request_ids cs) = length (filter has_toolUse cs)"
      by (induction cs) (auto simp: request_ids_Cons has_toolUse_def split: option.splits)
  qed
  have len_res: "\<And>xs. list_all is_tool_result xs \<Longrightarrow> length (result_ids xs) = length xs"
  proof -
    fix xs show "list_all is_tool_result xs \<Longrightarrow> length (result_ids xs) = length xs"
      by (induction xs) (auto simp: result_ids_def is_tool_result_def split: option.splits)
  qed
  have len: "length tool_content = length (filter has_toolUse (get_content output_message))"
    using len_res[OF rs(1)] rs(2) len_req by simp
  from a d obtain t where
    m: "m = \<lparr>role = ''user'', content = Some (tool_content @ [Text (''Current page: '' @ t)])\<rparr>"
    by (auto simp: run_client_turn_def split: prod.splits sum.splits)
  show ?thesis using m rs len by (auto simp: Text_def empty_item_def)
qed

lemma example_tool_unknown:
  assumes "tool_name \<noteq> ''navigate''" "tool_name \<noteq> ''screenshot''"
    "tool_name \<noteq> ''click''" "tool_name \<noteq> ''scroll''" "tool_name \<noteq> ''type''"
    "tool_name \<noteq> ''ask_user''"
  shows "example_tool E tool_name tool_id tool_input page = Inr ([], page)"
  unfolding example_tool_def using assms by (simp only: if_False)

text \<open>
  C3 at an input where the loop of \<^verbatim>\<open>08-type-scroll-tools.py\<close> departs from it: the
  assistant turn holds one toolUse request with id \<open>t1\<close> whose name is none of the six
  names of the \<^verbatim>\<open>if\<close>/\<^verbatim>\<open>elif\<close> chain. The chain appends nothing, and the user turn that
  is built holds the ambient text item only: no tool result carries the id \<open>t1\<close>.
\<close>

theorem run_example_turn_unknown_tool:
  "run_example_turn E json_loads
      \<lparr>role = ''assistant'',
       content = Some [ToolUse \<lparr>tu_toolUseId = Some ''t1'', tu_name = ''go_back'',
                                tu_input = None\<rparr>]\<rparr> page
     = Inr (\<lparr>role = ''user'',
             content = Some [Text (browser_text (eff_get_page_info E page))]\<rparr>, page) \<and>
   request_ids [ToolUse \<lparr>tu_toolUseId = Some ''t1'', tu_name = ''go_back'', tu_input = None\<rparr>]
     = [Some ''t1''] \<and>
   result_ids [Text (browser_text (eff_get_page_info E page))] = []"
  by (simp add: run_example_turn_def get_content_def ToolUse_def Text_def empty_item_def
      parse_tool_input_def example_tool_def request_ids_def result_ids_def)

section \<open>The compaction operations leave their argument alone\<close>

lemma frame_ret: "Q x \<Longrightarrow> frame n (ret x) Q"
  by (simp add: frame_def ret_def)

lemma frame_raise: "frame n (raise e) Q"
  by (simp add: frame_def raise_def)

lemma frame_bnd:
  assumes m: "frame n m P" and f: "\<And>x. P x \<Longrightarrow> frame n (f x) Q"
  shows "frame n (bnd m f) Q"
  unfolding frame_def
proof (intro allI impI)
  fix s :: store assume n: "n \<le> length s"
  obtain r s1 where ms: "m s = (r, s1)" by (cases "m s") auto
  from m n ms have 1: "length s \<le> length s1" "take n s1 = take n s"
    and r: "case r of Inr x \<Rightarrow> P x | Inl e \<Rightarrow> True"
    by (auto simp: frame_def)
  show "case bnd m f s of
          (r, s') \<Rightarrow> length s \<le> length s' \<and> take n s' = take n s \<and>
                     (case r of Inr x \<Rightarrow> Q x | Inl e \<Rightarrow> True)"
  proof (cases r)
    case (Inl e)
    with ms 1 show ?thesis by (simp add: bnd_def)
  next
    case (Inr x)
    with r have "P x" by simp
    from f[OF this] have fx: "frame n (f x) Q" .
    obtain r2 s2 where fs: "f x s1 = (r2, s2)" by (cases "f x s1") auto
    from n 1 have "n \<le> length s1" by simp
    with fx fs have 2: "length s1 \<le> length s2" "take n s2 = take n s1"
      "case r2 of Inr y \<Rightarrow> Q y | Inl e \<Rightarrow> True"
      by (auto simp: frame_def)
    from ms Inr fs 1 2 show ?thesis by (simp add: bnd_def)
  qed
qed

lemma frame_weaken: "frame n m P \<Longrightarrow> (\<And>x. P x \<Longrightarrow> Q x) \<Longrightarrow> frame n m Q"
  by (auto simp: frame_def split: prod.splits sum.splits)

lemma frame_alloc: "frame n (alloc ob) (\<lambda>a. n \<le> a)"
  by (simp add: frame_def alloc_def)

lemma frame_lookup: "frame n (lookup a) (\<lambda>ob. True)"
  by (simp add: frame_def lookup_def)

lemma frame_assign: "n \<le> a \<Longrightarrow> frame n (assign a ob) (\<lambda>u. True)"
  by (simp add: frame_def assign_def)

lemma frame_read_list: "frame n (read_list a) (\<lambda>xs. True)"
  unfolding read_list_def
  by (rule frame_bnd[OF frame_lookup]) (auto split: obj.splits intro: frame_ret frame_raise)

lemma frame_read_msg: "frame n (read_msg a) (\<lambda>x. True)"
  unfolding read_msg_def
  by (rule frame_bnd[OF frame_lookup]) (auto split: obj.splits intro: frame_ret frame_raise)

lemma frame_read_item: "frame n (read_item a) (\<lambda>x. True)"
  unfolding read_item_def
  by (rule frame_bnd[OF frame_lookup]) (auto split: obj.splits intro: frame_ret frame_raise)

lemma memo_fresh_lookup: "memo_fresh n memo \<Longrightarrow> map_of memo a = Some b \<Longrightarrow> n \<le> b"
  by (auto simp: memo_fresh_def dest: map_of_SomeD)

lemma memo_fresh_Cons: "memo_fresh n memo \<Longrightarrow> n \<le> b \<Longrightarrow> memo_fresh n ((a, b) # memo)"
  by (simp add: memo_fresh_def)

lemma frame_copy_item:
  assumes "memo_fresh n memo"
  shows "frame n (copy_item memo a) (\<lambda>(b, memo'). n \<le> b \<and> memo_fresh n memo')"
proof (cases "map_of memo a")
  case (Some b)
  with assms show ?thesis
    by (auto simp: copy_item_def intro!: frame_ret dest: memo_fresh_lookup)
next
  case None
  show ?thesis
    unfolding copy_item_def None option.case
    by (rule frame_bnd[OF frame_read_item], rule frame_bnd[OF frame_alloc], rule frame_ret)
       (use assms in \<open>simp add: memo_fresh_Cons\<close>)
qed

lemma frame_copy_items:
  "memo_fresh n memo \<Longrightarrow>
     frame n (copy_items memo as) (\<lambda>(bs, memo'). (\<forall>b \<in> set bs. n \<le> b) \<and> memo_fresh n memo')"
proof (induction as arbitrary: memo)
  case Nil
  then show ?case by (auto intro!: frame_ret)
next
  case (Cons a as)
  show ?case
    unfolding copy_items.simps
  proof (rule frame_bnd[OF frame_copy_item[OF Cons.prems]], clarify)
    fix b memo1 assume b: "n \<le> b" and m1: "memo_fresh n memo1"
    show "frame n (bnd (copy_items memo1 as) (\<lambda>(bs, memo2). ret (b # bs, memo2)))
            (\<lambda>(bs, memo'). (\<forall>b \<in> set bs. n \<le> b) \<and> memo_fresh n memo')"
      by (rule frame_bnd[OF Cons.IH[OF m1]]) (use b in \<open>auto intro!: frame_ret\<close>)
  qed
qed

lemma frame_copy_content:
  assumes "memo_fresh n memo"
  shows "frame n (copy_content memo l) (\<lambda>(b, memo'). n \<le> b \<and> memo_fresh n memo')"
proof (cases "map_of memo l")
  case (Some b)
  with assms show ?thesis
    by (auto simp: copy_content_def intro!: frame_ret dest: memo_fresh_lookup)
next
  case None
  show ?thesis
    unfolding copy_content_def None option.case
  proof (rule frame_bnd[OF frame_read_list], rule frame_bnd[OF frame_copy_items[OF assms]], clarify)
    fix bs memo1 assume m1: "memo_fresh n memo1"
    show "frame n (bnd (alloc (ListObj bs)) (\<lambda>b. ret (b, (l, b) # memo1)))
            (\<lambda>(b, memo'). n \<le> b \<and> memo_fresh n memo')"
      by (rule frame_bnd[OF frame_alloc], rule frame_ret) (use m1 in \<open>simp add: memo_fresh_Cons\<close>)
  qed
qed

lemma frame_copy_msg:
  assumes "memo_fresh n memo"
  shows "frame n (copy_msg memo a) (\<lambda>(b, memo'). n \<le> b \<and> memo_fresh n memo')"
proof (cases "map_of memo a")
  case (Some b)
  with assms show ?thesis
    by (auto simp: copy_msg_def intro!: frame_ret dest: memo_fresh_lookup)
next
  case None
  show ?thesis
    unfolding copy_msg_def None option.case
  proof (rule frame_bnd[OF frame_read_msg], clarify)
    fix r c
    show "frame n (case c of
             None \<Rightarrow> bnd (alloc (MsgObj r None)) (\<lambda>b. ret (b, (a, b) # memo))
           | Some l \<Rightarrow> bnd (copy_content memo l) (\<lambda>(l', memo1).
                         bnd (alloc (MsgObj r (Some l'))) (\<lambda>b. ret (b, (a, b) # memo1))))
            (\<lambda>(b, memo'). n \<le> b \<and> memo_fresh n memo')"
    proof (cases c)
      case None
      show ?thesis unfolding None option.case
        by (rule frame_bnd[OF frame_alloc], rule frame_ret)
           (use assms in \<open>simp add: memo_fresh_Cons\<close>)
    next
      case (Some l)
      show ?thesis unfolding Some option.case
      proof (rule frame_bnd[OF frame_copy_content[OF assms]], clarify)
        fix l' memo1 assume m1: "memo_fresh n memo1"
        show "frame n (bnd (alloc (MsgObj r (Some l'))) (\<lambda>b. ret (b, (a, b) # memo1)))
                (\<lambda>(b, memo'). n \<le> b \<and> memo_fresh n memo')"
          by (rule frame_bnd[OF frame_alloc], rule frame_ret)
             (use m1 in \<open>simp add: memo_fresh_Cons\<close>)
      qed
    qed
  qed
qed

lemma frame_copy_msgs:
  "memo_fresh n memo \<Longrightarrow>
     frame n (copy_msgs memo as) (\<lambda>(bs, memo'). (\<forall>b \<in> set bs. n \<le> b) \<and> memo_fresh n memo')"
proof (induction as arbitrary: memo)
  case Nil
  then show ?case by (auto intro!: frame_ret)
next
  case (Cons a as)
  show ?case
    unfolding copy_msgs.simps
  proof (rule frame_bnd[OF frame_copy_msg[OF Cons.prems]], clarify)
    fix b memo1 assume b: "n \<le> b" and m1: "memo_fresh n memo1"
    show "frame n (bnd (copy_msgs memo1 as) (\<lambda>(bs, memo2). ret (b # bs, memo2)))
            (\<lambda>(bs, memo'). (\<forall>b \<in> set bs. n \<le> b) \<and> memo_fresh n memo')"
      by (rule frame_bnd[OF Cons.IH[OF m1]]) (use b in \<open>auto intro!: frame_ret\<close>)
  qed
qed

lemma frame_deepcopy_messages:
  "frame n (deepcopy_messages l) (\<lambda>(pl, bs). n \<le> pl \<and> (\<forall>b \<in> set bs. n \<le> b))"
  unfolding deepcopy_messages_def
proof (rule frame_bnd[OF frame_read_list])
  fix msgs
  have "memo_fresh n []" by (simp add: memo_fresh_def)
  show "frame n (bnd (copy_msgs [] msgs) (\<lambda>(bs, memo). bnd (alloc (ListObj bs)) (\<lambda>pl. ret (pl, bs))))
          (\<lambda>(pl, bs). n \<le> pl \<and> (\<forall>b \<in> set bs. n \<le> b))"
  proof (rule frame_bnd[OF frame_copy_msgs[OF \<open>memo_fresh n []\<close>]], clarify)
    fix bs :: "nat list" and memo :: memo
    assume bs: "\<forall>b \<in> set bs. n \<le> b"
    show "frame n (bnd (alloc (ListObj bs)) (\<lambda>pl. ret (pl, bs)))
            (\<lambda>(pl, bs). n \<le> pl \<and> (\<forall>b \<in> set bs. n \<le> b))"
      by (rule frame_bnd[OF frame_alloc], rule frame_ret) (use bs in simp)
  qed
qed

lemma frame_strip_loop_st: "frame n (strip_loop_st items new_content removed) (\<lambda>x. True)"
proof (induction items arbitrary: new_content removed)
  case Nil
  show ?case by (simp add: frame_ret)
next
  case (Cons a items)
  show ?case
    unfolding strip_loop_st.simps
    by (rule frame_bnd[OF frame_read_item]) (simp add: Cons.IH)
qed

lemma frame_final_content:
  "frame n (if removed_media \<and> new_content = []
            then bnd (alloc (ItemObj placeholder)) (\<lambda>p. ret (new_content @ [p]))
            else ret new_content) (\<lambda>x. True)"
  by (auto intro!: frame_ret frame_bnd[OF frame_alloc])

lemma frame_strip_message_st:
  assumes "n \<le> b"
  shows "frame n (strip_message_st b) (\<lambda>u. True)"
  unfolding strip_message_st_def
proof (rule frame_bnd[OF frame_read_msg], clarify)
  fix r c
  show "frame n (case c of
           None \<Rightarrow> ret ()
         | Some cl \<Rightarrow>
             bnd (read_list cl) (\<lambda>items.
             bnd (strip_loop_st items [] False) (\<lambda>(new_content, removed_media).
             bnd (if removed_media \<and> new_content = []
                  then bnd (alloc (ItemObj placeholder)) (\<lambda>p. ret (new_content @ [p]))
                  else ret new_content) (\<lambda>final_content.
             bnd (alloc (ListObj final_content)) (\<lambda>nl.
             assign b (MsgObj r (Some nl))))))) (\<lambda>u. True)"
  proof (cases c)
    case None
    show ?thesis unfolding None option.case by (rule frame_ret) simp
  next
    case (Some cl)
    show ?thesis unfolding Some option.case
    proof (rule frame_bnd[OF frame_read_list], rule frame_bnd[OF frame_strip_loop_st], clarify)
      fix new_content :: "nat list" and removed_media :: bool
      show "frame n
             (bnd (if removed_media \<and> new_content = []
                   then bnd (alloc (ItemObj placeholder)) (\<lambda>p. ret (new_content @ [p]))
                   else ret new_content) (\<lambda>final_content.
              bnd (alloc (ListObj final_content)) (\<lambda>nl.
              assign b (MsgObj r (Some nl))))) (\<lambda>u. True)"
        by (rule frame_bnd[OF frame_final_content], rule frame_bnd[OF frame_alloc],
            rule frame_assign[OF assms])
    qed
  qed
qed

lemma frame_read_roles: "frame n (read_roles bs) (\<lambda>x. True)"
proof (induction bs)
  case Nil
  show ?case by (simp add: frame_ret)
next
  case (Cons b bs)
  show ?case
    unfolding read_roles.simps
    by (rule frame_bnd[OF frame_read_msg], clarify, rule frame_bnd[OF Cons.IH], rule frame_ret)
       simp
qed

lemma frame_process_st:
  "\<forall>b \<in> set bs. n \<le> b \<Longrightarrow> frame n (process_st roles bs i) (\<lambda>u. True)"
proof (induction bs arbitrary: i)
  case Nil
  show ?case by (simp add: frame_ret)
next
  case (Cons b bs)
  have b: "n \<le> b" and rest: "\<forall>b \<in> set bs. n \<le> b" using Cons.prems by simp_all
  have step: "frame n (if skip_last_turn roles i then ret () else strip_message_st b) (\<lambda>u. True)"
    by (simp add: frame_ret frame_strip_message_st[OF b])
  show ?case
    unfolding process_st.simps
    by (rule frame_bnd[OF step]) (rule Cons.IH[OF rest])
qed

lemma frame_remove_media_st:
  "frame n (remove_media_except_last_turn_st messages) (\<lambda>r. r = messages \<or> n \<le> r)"
  unfolding remove_media_except_last_turn_st_def
proof (rule frame_bnd[OF frame_read_list])
  fix msgs :: "nat list"
  show "frame n
         (if length msgs < 2 then ret messages
          else bnd (deepcopy_messages messages) (\<lambda>(processed_messages, bs).
               bnd (read_roles bs) (\<lambda>rs.
               bnd (process_st (map (\<lambda>r. \<lparr>role = r, content = None\<rparr>) rs) bs 0) (\<lambda>u.
               ret processed_messages))))
         (\<lambda>r. r = messages \<or> n \<le> r)"
  proof (cases "length msgs < 2")
    case True
    then show ?thesis by (simp add: frame_ret)
  next
    case False
    have "frame n
           (bnd (deepcopy_messages messages) (\<lambda>(processed_messages, bs).
            bnd (read_roles bs) (\<lambda>rs.
            bnd (process_st (map (\<lambda>r. \<lparr>role = r, content = None\<rparr>) rs) bs 0) (\<lambda>u.
            ret processed_messages))))
           (\<lambda>r. r = messages \<or> n \<le> r)"
    proof (rule frame_bnd[OF frame_deepcopy_messages], clarify)
      fix pl :: nat and bs :: "nat list"
      assume pl: "n \<le> pl" and bs: "\<forall>b \<in> set bs. n \<le> b"
      show "frame n
             (bnd (read_roles bs) (\<lambda>rs.
              bnd (process_st (map (\<lambda>r. \<lparr>role = r, content = None\<rparr>) rs) bs 0) (\<lambda>u.
              ret pl)))
             (\<lambda>r. r = messages \<or> n \<le> r)"
        by (rule frame_bnd[OF frame_read_roles], rule frame_bnd[OF frame_process_st[OF bs]],
            rule frame_ret) (use pl in simp)
    qed
    with False show ?thesis by simp
  qed
qed

lemma frame_load_items: "frame n (load_items items) (\<lambda>x. True)"
proof (induction items)
  case Nil
  show ?case by (simp add: frame_ret)
next
  case (Cons a items)
  show ?case
    unfolding load_items.simps
    by (rule frame_bnd[OF frame_read_item], rule frame_bnd[OF Cons.IH], rule frame_ret) simp
qed

lemma frame_load_msg: "frame n (load_msg a) (\<lambda>x. True)"
  unfolding load_msg_def
proof (rule frame_bnd[OF frame_read_msg], clarify)
  fix r c
  show "frame n (case c of
           None \<Rightarrow> ret \<lparr>role = r, content = None\<rparr>
         | Some cl \<Rightarrow> bnd (read_list cl) (\<lambda>items. bnd (load_items items) (\<lambda>vs.
                        ret \<lparr>role = r, content = Some vs\<rparr>))) (\<lambda>x. True)"
  proof (cases c)
    case None
    show ?thesis unfolding None option.case by (rule frame_ret) simp
  next
    case (Some cl)
    show ?thesis unfolding Some option.case
      by (rule frame_bnd[OF frame_read_list], rule frame_bnd[OF frame_load_items],
          rule frame_ret) simp
  qed
qed

lemma frame_load_msgs: "frame n (load_msgs bs) (\<lambda>x. True)"
proof (induction bs)
  case Nil
  show ?case by (simp add: frame_ret)
next
  case (Cons b bs)
  show ?case
    unfolding load_msgs.simps
    by (rule frame_bnd[OF frame_load_msg], rule frame_bnd[OF Cons.IH], rule frame_ret) simp
qed

lemma frame_filter_refs: "frame n (filter_refs P items) (\<lambda>x. True)"
proof (induction items)
  case Nil
  show ?case by (simp add: frame_ret)
next
  case (Cons a items)
  show ?case
    unfolding filter_refs.simps
    by (rule frame_bnd[OF frame_read_item], rule frame_bnd[OF Cons.IH], rule frame_ret) simp
qed

lemma frame_tool_use_content_st: "frame n (tool_use_content_st ts) (\<lambda>x. True)"
proof (cases "ts = []")
  case True
  then show ?thesis by (simp add: tool_use_content_st_def frame_ret)
next
  case False
  have "frame n (bnd (read_msg (last ts)) (\<lambda>(r, c).
          if r = ''assistant''
          then (case c of None \<Rightarrow> ret [] | Some cl \<Rightarrow> bnd (read_list cl) (filter_refs has_toolUse))
          else ret [])) (\<lambda>x. True)"
  proof (rule frame_bnd[OF frame_read_msg], clarify)
    fix r :: string and c :: "nat option"
    show "frame n (if r = ''assistant''
          then (case c of None \<Rightarrow> ret [] | Some cl \<Rightarrow> bnd (read_list cl) (filter_refs has_toolUse))
          else ret []) (\<lambda>x. True)"
      by (cases c) (auto intro!: frame_ret frame_bnd[OF frame_read_list] frame_filter_refs)
  qed
  with False show ?thesis by (simp add: tool_use_content_st_def)
qed

lemma frame_summary_result_st:
  assumes pl: "n \<le> pl"
  shows "frame n (summary_result_st messages pl bs tu pm outcome) (\<lambda>r. r = messages \<or> n \<le> r)"
proof (cases outcome)
  case (Inl e)
  show ?thesis unfolding summary_result_st_def Inl sum.case by (rule frame_ret) (use pl in simp)
next
  case (Inr summary_response)
  show ?thesis unfolding summary_result_st_def Inr sum.case
    by (rule frame_bnd[OF frame_alloc], rule frame_bnd[OF frame_alloc],
        rule frame_bnd[OF frame_alloc], rule frame_bnd[OF frame_alloc])
       (auto split: prod.splits intro!: frame_ret)
qed

lemma frame_summarize_copy_st:
  assumes pl: "n \<le> pl"
  shows "frame n (summarize_copy_st bedrock_client messages pl bs pm)
           (\<lambda>r. r = messages \<or> n \<le> r)"
proof (cases "to_summarize_of pm = []")
  case True
  show ?thesis unfolding summarize_copy_st_def if_P[OF True]
    by (rule frame_bnd[OF frame_alloc], rule frame_bnd[OF frame_alloc], rule frame_ret)
       (use pl in simp)
next
  case False
  show ?thesis unfolding summarize_copy_st_def if_not_P[OF False]
    by (rule frame_bnd[OF frame_alloc], rule frame_bnd[OF frame_alloc],
        rule frame_bnd[OF frame_tool_use_content_st], rule frame_bnd[OF frame_alloc],
        rule frame_summary_result_st[OF pl])
qed

lemma frame_summarize_st:
  "frame n (summarize_conversation_st bedrock_client messages) (\<lambda>r. r = messages \<or> n \<le> r)"
  unfolding summarize_conversation_st_def
proof (rule frame_bnd[OF frame_read_list])
  fix msgs :: "nat list"
  have copy: "frame n
       (bnd (deepcopy_messages messages) (\<lambda>(processed_messages, bs).
        bnd (load_msgs bs) (\<lambda>pm.
        summarize_copy_st bedrock_client messages processed_messages bs pm)))
       (\<lambda>r. r = messages \<or> n \<le> r)"
  proof (rule frame_bnd[OF frame_deepcopy_messages], clarify)
    fix pl :: nat and bs :: "nat list"
    assume pl: "n \<le> pl"
    show "frame n (bnd (load_msgs bs) (\<lambda>pm. summarize_copy_st bedrock_client messages pl bs pm))
            (\<lambda>r. r = messages \<or> n \<le> r)"
      by (rule frame_bnd[OF frame_load_msgs], rule frame_summarize_copy_st[OF pl])
  qed
  show "frame n
     (if length msgs \<le> KEEP_LAST_TURNS * 2 + 1 then ret messages
      else
       bnd (deepcopy_messages messages) (\<lambda>(processed_messages, bs).
       bnd (load_msgs bs) (\<lambda>pm.
       summarize_copy_st bedrock_client messages processed_messages bs pm)))
     (\<lambda>r. r = messages \<or> n \<le> r)"
    using copy by (simp add: frame_ret)
qed

lemma media_store_layout:
  "put_messages media_transcript [] = (Inr 12, media_store) \<and> length media_store = 13"
  unfolding media_store_def by code_simp

lemma media_store_run:
  "(case remove_media_except_last_turn_st 12 media_store of
      (r, s') \<Rightarrow> r = Inr 25 \<and>
                 fst (load_messages 25 s') = Inr (remove_media_except_last_turn media_transcript) \<and>
                 fst (load_messages 12 s') = Inr media_transcript)"
  unfolding media_store_def by code_simp

lemma demo_store_layout:
  "put_messages demo_transcript [] = (Inr 24, demo_store) \<and> length demo_store = 25"
  unfolding demo_store_def by code_simp

lemma demo_store_run:
  "(case summarize_conversation_st demo_client 24 demo_store of
      (r, s') \<Rightarrow> r = Inr 56 \<and>
                 fst (load_messages 56 s') = Inr (summarize_conversation demo_client demo_transcript) \<and>
                 fst (load_messages 24 s') = Inr demo_transcript)"
  unfolding demo_store_def by code_simp

section \<open>The argument as it is read back after a compaction\<close>

lemma read_only_ret: "read_only (ret x)"
  by (simp add: read_only_def ret_def)

lemma read_only_raise: "read_only (raise e)"
  by (simp add: read_only_def raise_def)

lemma read_only_lookup: "read_only (lookup a)"
  unfolding read_only_def lookup_def
proof (intro allI impI)
  fix s s' :: store and x s1
  assume len: "length s \<le> length s'" and pre: "take (length s) s' = s"
    and run: "(if a < length s then (Inr (s ! a), s) else (Inl ''dangling reference'', s)) = (Inr x, s1)"
  from run have a: "a < length s" and x: "x = s ! a" and s1: "s1 = s"
    by (auto split: if_splits)
  from a pre have "s' ! a = s ! a" by (metis nth_take)
  with a len x s1
  show "s1 = s \<and> (if a < length s' then (Inr (s' ! a), s') else (Inl ''dangling reference'', s'))
          = (Inr x, s')"
    by simp
qed

lemma read_only_bnd:
  assumes m: "read_only m" and f: "\<And>x. read_only (f x)"
  shows "read_only (bnd m f)"
  unfolding read_only_def
proof (intro allI impI)
  fix s s' :: store and y s2
  assume len: "length s \<le> length s'" and pre: "take (length s) s' = s"
    and run: "bnd m f s = (Inr y, s2)"
  obtain r s1 where ms: "m s = (r, s1)" by (cases "m s") auto
  from run ms obtain x where r: "r = Inr x" and fx: "f x s1 = (Inr y, s2)"
    by (cases r) (auto simp: bnd_def)
  from m len pre ms r have 1: "s1 = s" "m s' = (Inr x, s')" by (auto simp: read_only_def)
  from f[of x] len pre fx 1 have 2: "s2 = s" "f x s' = (Inr y, s')" by (auto simp: read_only_def)
  from 1 2 show "s2 = s \<and> bnd m f s' = (Inr y, s')" by (simp add: bnd_def)
qed

lemma read_only_read_list: "read_only (read_list a)"
  unfolding read_list_def
  by (rule read_only_bnd[OF read_only_lookup]) (auto split: obj.splits intro: read_only_ret read_only_raise)

lemma read_only_read_msg: "read_only (read_msg a)"
  unfolding read_msg_def
  by (rule read_only_bnd[OF read_only_lookup]) (auto split: obj.splits intro: read_only_ret read_only_raise)

lemma read_only_read_item: "read_only (read_item a)"
  unfolding read_item_def
  by (rule read_only_bnd[OF read_only_lookup]) (auto split: obj.splits intro: read_only_ret read_only_raise)

lemma read_only_load_items: "read_only (load_items items)"
  by (induction items) (auto intro!: read_only_ret read_only_bnd read_only_read_item)

lemma read_only_load_msg: "read_only (load_msg a)"
  unfolding load_msg_def
  by (rule read_only_bnd[OF read_only_read_msg])
     (auto split: option.splits intro!: read_only_ret read_only_bnd read_only_read_list read_only_load_items)

lemma read_only_load_msgs: "read_only (load_msgs as)"
  by (induction as) (auto intro!: read_only_ret read_only_bnd read_only_load_msg)

lemma read_only_load_messages: "read_only (load_messages l)"
  unfolding load_messages_def
  by (rule read_only_bnd[OF read_only_read_list]) (rule read_only_load_msgs)

lemma load_messages_after:
  assumes "length s \<le> length s'" "take (length s) s' = s"
    and "fst (load_messages l s) = Inr ms"
  shows "fst (load_messages l s') = Inr ms"
proof -
  obtain s1 where "load_messages l s = (Inr ms, s1)"
    using assms(3) by (cases "load_messages l s") auto
  with read_only_load_messages[of l] assms(1,2) show ?thesis
    by (auto simp: read_only_def)
qed

lemma media_store_load: "fst (load_messages 12 media_store) = Inr media_transcript"
  unfolding media_store_def by code_simp

lemma demo_store_load: "fst (load_messages 24 demo_store) = Inr demo_transcript"
  unfolding demo_store_def by code_simp

text \<open>
  C10: neither compaction operation changes its argument. Whatever the store and the
  address of the message list, and whether the operation returns or raises, every object
  that existed before the call (the input list, its messages, their content lists and
  items among them) is the same afterwards and the store only grows; a transcript that
  could be read at the argument before the call is read there unchanged after it. A
  returned list is the argument itself (the early returns and the fallback of the count
  check) or a list allocated by the call.
\<close>

theorem compaction_leaves_argument:
  "(case remove_media_except_last_turn_st messages s of
      (r, s') \<Rightarrow> length s \<le> length s' \<and> take (length s) s' = s \<and>
                 (fst (load_messages messages s) = Inr ms \<longrightarrow>
                    fst (load_messages messages s') = Inr ms) \<and>
                 (case r of Inr a \<Rightarrow> a = messages \<or> length s \<le> a | Inl e \<Rightarrow> True)) \<and>
   (case summarize_conversation_st bedrock_client messages s of
      (r, s') \<Rightarrow> length s \<le> length s' \<and> take (length s) s' = s \<and>
                 (fst (load_messages messages s) = Inr ms \<longrightarrow>
                    fst (load_messages messages s') = Inr ms) \<and>
                 (case r of Inr a \<Rightarrow> a = messages \<or> length s \<le> a | Inl e \<Rightarrow> True))"
proof
  obtain r s' where run: "remove_media_except_last_turn_st messages s = (r, s')"
    by (cases "remove_media_except_last_turn_st messages s") auto
  from frame_remove_media_st[of "length s" messages] run
  have f: "length s \<le> length s'" "take (length s) s' = s"
    "case r of Inr a \<Rightarrow> a = messages \<or> length s \<le> a | Inl e \<Rightarrow> True"
    unfolding frame_def by (auto split: prod.splits)
  from load_messages_after[OF f(1) f(2)]
  have "fst (load_messages messages s) = Inr ms \<longrightarrow> fst (load_messages messages s') = Inr ms"
    by blast
  with f run
  show "case remove_media_except_last_turn_st messages s of
      (r, s') \<Rightarrow> length s \<le> length s' \<and> take (length s) s' = s \<and>
                 (fst (load_messages messages s) = Inr ms \<longrightarrow>
                    fst (load_messages messages s') = Inr ms) \<and>
                 (case r of Inr a \<Rightarrow> a = messages \<or> length s \<le> a | Inl e \<Rightarrow> True)"
    by simp
next
  obtain r s' where run: "summarize_conversation_st bedrock_client messages s = (r, s')"
    by (cases "summarize_conversation_st bedrock_client messages s") auto
  from frame_summarize_st[of "length s" bedrock_client messages] run
  have f: "length s \<le> length s'" "take (length s) s' = s"
    "case r of Inr a \<Rightarrow> a = messages \<or> length s \<le> a | Inl e \<Rightarrow> True"
    unfolding frame_def by (auto split: prod.splits)
  from load_messages_after[OF f(1) f(2)]
  have "fst (load_messages messages s) = Inr ms \<longrightarrow> fst (load_messages messages s') = Inr ms"
    by blast
  with f run
  show "case summarize_conversation_st bedrock_client messages s of
      (r, s') \<Rightarrow> length s \<le> length s' \<and> take (length s) s' = s \<and>
                 (fst (load_messages messages s) = Inr ms \<longrightarrow>
                    fst (load_messages messages s') = Inr ms) \<and>
                 (case r of Inr a \<Rightarrow> a = messages \<or> length s \<le> a | Inl e \<Rightarrow> True)"
    by simp
qed

theorem compaction_leaves_argument_witness:
  "fst (remove_media_except_last_turn_st 12 media_store) = Inr 25 \<and>
   take 13 (snd (remove_media_except_last_turn_st 12 media_store)) = media_store \<and>
   fst (load_messages 12 (snd (remove_media_except_last_turn_st 12 media_store)))
     = Inr media_transcript \<and>
   fst (load_messages 25 (snd (remove_media_except_last_turn_st 12 media_store)))
     = Inr (remove_media_except_last_turn media_transcript) \<and>
   fst (summarize_conversation_st demo_client 24 demo_store) = Inr 56 \<and>
   take 25 (snd (summarize_conversation_st demo_client 24 demo_store)) = demo_store \<and>
   fst (load_messages 24 (snd (summarize_conversation_st demo_client 24 demo_store)))
     = Inr demo_transcript \<and>
   fst (load_messages 56 (snd (summarize_conversation_st demo_client 24 demo_store)))
     = Inr (summarize_conversation demo_client demo_transcript)"
proof -
  have l1: "length media_store = 13" using media_store_layout by simp
  have l2: "length demo_store = 25" using demo_store_layout by simp
  note t1 = compaction_leaves_argument[where messages = 12 and s = media_store
      and ms = media_transcript and bedrock_client = demo_client]
  note t2 = compaction_leaves_argument[where messages = 24 and s = demo_store
      and ms = demo_transcript and bedrock_client = demo_client]
  from t1 l1 media_store_load
  have a: "take 13 (snd (remove_media_except_last_turn_st 12 media_store)) = media_store"
    "fst (load_messages 12 (snd (remove_media_except_last_turn_st 12 media_store)))
       = Inr media_transcript"
    by (auto split: prod.splits)
  from t2 l2 demo_store_load
  have b: "take 25 (snd (summarize_conversation_st demo_client 24 demo_store)) = demo_store"
    "fst (load_messages 24 (snd (summarize_conversation_st demo_client 24 demo_store)))
       = Inr demo_transcript"
    by (auto split: prod.splits)
  from media_store_run have c:
    "fst (remove_media_except_last_turn_st 12 media_store) = Inr 25"
    "fst (load_messages 25 (snd (remove_media_except_last_turn_st 12 media_store)))
       = Inr (remove_media_except_last_turn media_transcript)"
    by (auto split: prod.splits)
  from demo_store_run have d:
    "fst (summarize_conversation_st demo_client 24 demo_store) = Inr 56"
    "fst (load_messages 56 (snd (summarize_conversation_st demo_client 24 demo_store)))
       = Inr (summarize_conversation demo_client demo_transcript)"
    by (auto split: prod.splits)
  from a b c d show ?thesis by simp
qed

end
